theory Spec2Isabelle
  imports Complex_Main "HOL-Library.Char_ord" "HOL-Library.List_Lexorder" "HOL-Library.Sublist"
begin

chapter \<open>The program\<close>

section \<open>Python strings and integers\<close>

text \<open>
  Strings are character lists. \<open>str.lower\<close> is modelled on the ASCII letters,
  \<open>a in b\<close> on strings is the contiguous-substring test, and \<open>str(int)\<close> /
  an integer inside an f-string is the decimal numeral with a leading minus sign.
\<close>

definition lower_char :: "char \<Rightarrow> char" where
  "lower_char c =
     (if CHR ''A'' \<le> c \<and> c \<le> CHR ''Z'' then char_of (of_char c + (32::nat)) else c)"

definition lower :: "string \<Rightarrow> string" where
  "lower s = map lower_char s"

fun startswith :: "string \<Rightarrow> string \<Rightarrow> bool" where
  "startswith s [] = True"
| "startswith [] (p # ps) = False"
| "startswith (c # cs) (p # ps) = (c = p \<and> startswith cs ps)"

fun contains :: "string \<Rightarrow> string \<Rightarrow> bool" where
  "contains [] p = (p = [])"
| "contains (c # cs) p = (startswith (c # cs) p \<or> contains cs p)"

definition digit_char :: "nat \<Rightarrow> char" where
  "digit_char d = char_of (48 + d)"

function str_nat :: "nat \<Rightarrow> string" where
  "str_nat n = (if n < 10 then [digit_char n] else str_nat (n div 10) @ [digit_char (n mod 10)])"
  by pat_completeness auto
termination
  by (relation "measure id") auto

definition str_int :: "int \<Rightarrow> string" where
  "str_int i = (if i < 0 then CHR ''-'' # str_nat (nat (- i)) else str_nat (nat i))"

fun join :: "string \<Rightarrow> string list \<Rightarrow> string" where
  "join sep [] = []"
| "join sep [x] = x"
| "join sep (x # y # ys) = x @ sep @ join sep (y # ys)"

section \<open>Execution trace (trace.py)\<close>

datatype TraceEventType =
    QUERY_START | QUERY_END
  | SCHEMA_ANALYSIS_START | SCHEMA_ANALYSIS_END
  | PLAN_START | PLAN_END | PLAN_DECISION
  | CHUNK_START | CHUNK_END | CHUNK_SKIP
  | LLM_CALL_START | LLM_CALL_END | LLM_CALL_ERROR
  | AGGREGATE_START | AGGREGATE_END
  | CITATION_EXTRACT | CITATION_VERIFY
  | ERROR | WARNING | INFO

text \<open>
  The \<open>data\<close> payload of an entry is an arbitrary dictionary; it is kept as a value of
  a type parameter. Durations are wall-clock readings, kept as reals.
\<close>

record 'd TraceEntry =
  timestamp :: string
  event_type :: TraceEventType
  message :: string
  data :: "'d option"
  duration_ms :: "real option"
  tokens_used :: "int option"

record 'd ExecutionTrace =
  query_id :: string
  query :: string
  started_at :: string
  file_path :: "string option"
  entries :: "'d TraceEntry list"
  total_duration_ms :: "real option"
  total_tokens :: int
  total_llm_calls :: int
  chunks_processed :: int
  chunks_skipped :: int
  citations_found :: int
  citations_verified :: int
  unique_authors :: int
  reference_ids :: "string list"
  answer :: "string option"
  error :: "string option"

text \<open>The dataclass constructor with its defaults.\<close>

definition new_trace :: "string \<Rightarrow> string \<Rightarrow> string \<Rightarrow> string option \<Rightarrow> 'd ExecutionTrace" where
  "new_trace qid q started fp =
     \<lparr> query_id = qid, query = q, started_at = started, file_path = fp,
       entries = [], total_duration_ms = None,
       total_tokens = 0, total_llm_calls = 0, chunks_processed = 0, chunks_skipped = 0,
       citations_found = 0, citations_verified = 0, unique_authors = 0,
       reference_ids = [], answer = None, error = None \<rparr>"

text \<open>Python truthiness of an \<open>Optional[int]\<close>: neither \<open>None\<close> nor \<open>0\<close>.\<close>

fun truthy_int :: "int option \<Rightarrow> bool" where
  "truthy_int None = False"
| "truthy_int (Some n) = (n \<noteq> 0)"

text \<open>
  \<open>ExecutionTrace.add_entry\<close>. The first argument is the reading of
  \<open>datetime.now().isoformat()\<close> taken by the call.
\<close>

definition add_entry ::
  "string \<Rightarrow> TraceEventType \<Rightarrow> string \<Rightarrow> 'd option \<Rightarrow> real option \<Rightarrow> int option \<Rightarrow>
   'd ExecutionTrace \<Rightarrow> 'd ExecutionTrace" where
  "add_entry now ev msg dat dur toks tr =
     (let entry = \<lparr> timestamp = now, event_type = ev, message = msg, data = dat,
                     duration_ms = dur, tokens_used = toks \<rparr>;
          tr1 = tr\<lparr> entries := entries tr @ [entry] \<rparr>;
          tr2 = (if truthy_int toks then tr1\<lparr> total_tokens := total_tokens tr1 + the toks \<rparr> else tr1);
          tr3 = (if ev = LLM_CALL_END then tr2\<lparr> total_llm_calls := total_llm_calls tr2 + 1 \<rparr> else tr2);
          tr4 = (if ev = CHUNK_END then tr3\<lparr> chunks_processed := chunks_processed tr3 + 1 \<rparr> else tr3)
      in (if ev = CHUNK_SKIP then tr4\<lparr> chunks_skipped := chunks_skipped tr4 + 1 \<rparr> else tr4))"

text \<open>\<open>ExecutionTrace.log_error\<close>.\<close>

definition log_error :: "string \<Rightarrow> string \<Rightarrow> 'd option \<Rightarrow> 'd ExecutionTrace \<Rightarrow> 'd ExecutionTrace" where
  "log_error now err details tr = add_entry now ERROR err details None None (tr\<lparr> error := Some err \<rparr>)"

text \<open>A sequence of \<open>add_entry\<close> calls, each given by its arguments.\<close>

type_synonym 'd entry_call =
  "string \<times> TraceEventType \<times> string \<times> 'd option \<times> real option \<times> int option"

fun entry_of :: "'d entry_call \<Rightarrow> 'd TraceEntry" where
  "entry_of (now, ev, msg, dat, dur, toks) =
     \<lparr> timestamp = now, event_type = ev, message = msg, data = dat,
       duration_ms = dur, tokens_used = toks \<rparr>"

fun add_entry_call :: "'d entry_call \<Rightarrow> 'd ExecutionTrace \<Rightarrow> 'd ExecutionTrace" where
  "add_entry_call (now, ev, msg, dat, dur, toks) tr = add_entry now ev msg dat dur toks tr"

fun add_entries :: "'d entry_call list \<Rightarrow> 'd ExecutionTrace \<Rightarrow> 'd ExecutionTrace" where
  "add_entries [] tr = tr"
| "add_entries (c # cs) tr = add_entries cs (add_entry_call c tr)"

fun tokens_or_0 :: "int option \<Rightarrow> int" where
  "tokens_or_0 None = 0"
| "tokens_or_0 (Some n) = n"

definition count_events :: "TraceEventType \<Rightarrow> 'd TraceEntry list \<Rightarrow> int" where
  "count_events ev es = int (length (filter (\<lambda>e. event_type e = ev) es))"

definition totals_consistent :: "'d ExecutionTrace \<Rightarrow> bool" where
  "totals_consistent tr =
     (total_tokens tr = sum_list (map (\<lambda>e. tokens_or_0 (tokens_used e)) (entries tr)) \<and>
      total_llm_calls tr = count_events LLM_CALL_END (entries tr) \<and>
      chunks_processed tr = count_events CHUNK_END (entries tr) \<and>
      chunks_skipped tr = count_events CHUNK_SKIP (entries tr))"

section \<open>Regular expressions of the \<open>re\<close> module (boolean matching)\<close>

text \<open>
  The patterns whose only use is the truth value of \<open>re.search\<close> or \<open>re.match\<close>
  are written in a small regular-expression type. \<open>rmatch r s\<close> lists the remainders
  of \<open>s\<close> after every way \<open>r\<close> can match a prefix of \<open>s\<close>; a match exists iff the
  list is not empty, which is what backtracking decides.
\<close>

datatype regex =
    Lit string
  | OneOf string
  | Digit
  | Seq regex regex
  | Alt regex regex
  | Opt regex

definition is_digit :: "char \<Rightarrow> bool" where
  "is_digit c = (CHR ''0'' \<le> c \<and> c \<le> CHR ''9'')"

fun rmatch :: "regex \<Rightarrow> string \<Rightarrow> string list" where
  "rmatch (Lit p) s = (if startswith s p then [drop (length p) s] else [])"
| "rmatch (OneOf cs) s = (case s of [] \<Rightarrow> [] | c # rest \<Rightarrow> if c \<in> set cs then [rest] else [])"
| "rmatch Digit s = (case s of [] \<Rightarrow> [] | c # rest \<Rightarrow> if is_digit c then [rest] else [])"
| "rmatch (Seq a b) s = concat (map (rmatch b) (rmatch a s))"
| "rmatch (Alt a b) s = rmatch a s @ rmatch b s"
| "rmatch (Opt a) s = rmatch a s @ [s]"

definition re_match :: "regex \<Rightarrow> string \<Rightarrow> bool" where
  "re_match r s = (rmatch r s \<noteq> [])"

fun re_search :: "regex \<Rightarrow> string \<Rightarrow> bool" where
  "re_search r [] = re_match r []"
| "re_search r (c # cs) = (re_match r (c # cs) \<or> re_search r cs)"

fun seqs :: "regex list \<Rightarrow> regex" where
  "seqs [] = Lit []"
| "seqs [r] = r"
| "seqs (r # rs) = Seq r (seqs rs)"

fun alts :: "regex list \<Rightarrow> regex" where
  "alts [] = OneOf []"
| "alts [r] = r"
| "alts (r # rs) = Alt r (alts rs)"

section \<open>Query planner: intent detection (query\_planner.py)\<close>

datatype QueryIntent =
  SEARCH | SUMMARIZE | COUNT | ANALYZE | EXTRACT | COMPARE | TIMELINE | EXHAUSTIVE_EXTRACT

definition exhaustive_indicators :: "string list" where
  "exhaustive_indicators =
     [''what are people saying'', ''everything about'', ''all mentions'', ''every mention'',
      ''everything said about'', ''all the discussions'', ''comprehensive'', ''exhaustive'',
      ''each instance'', ''every single'', ''all instances'', ''cite all'', ''full context'']"

text \<open>
  The five \<open>opinion_patterns\<close>:
  \<^verbatim>\<open>what (?:do|are|did) (?:people|they|users?|members?) (?:say|think|mention)\<close>,
  \<^verbatim>\<open>opinions? (?:on|about|regarding)\<close>, and the same shape for
  \<open>thoughts?\<close>, \<open>feedback\<close> and \<open>discussion\<close>.
\<close>

definition on_about_regarding :: regex where
  "on_about_regarding = alts [Lit ''on'', Lit ''about'', Lit ''regarding'']"

definition opinion_patterns :: "regex list" where
  "opinion_patterns =
     [seqs [Lit ''what '', alts [Lit ''do'', Lit ''are'', Lit ''did''], Lit '' '',
            alts [Lit ''people'', Lit ''they'', Seq (Lit ''user'') (Opt (Lit ''s'')),
                  Seq (Lit ''member'') (Opt (Lit ''s''))],
            Lit '' '', alts [Lit ''say'', Lit ''think'', Lit ''mention'']],
      seqs [Lit ''opinion'', Opt (Lit ''s''), Lit '' '', on_about_regarding],
      seqs [Lit ''thought'', Opt (Lit ''s''), Lit '' '', on_about_regarding],
      seqs [Lit ''feedback '', on_about_regarding],
      seqs [Lit ''discussion '', on_about_regarding]]"

definition search_indicators :: "string list" where
  "search_indicators = [''find'', ''search'', ''look for'', ''where'', ''who said'', ''mentions'']"

definition count_indicators :: "string list" where
  "count_indicators = [''how many'', ''count'', ''number of'', ''total'']"

definition timeline_indicators :: "string list" where
  "timeline_indicators = [''when'', ''timeline'', ''over time'', ''history'', ''chronological'']"

definition compare_indicators :: "string list" where
  "compare_indicators = [''compare'', ''difference'', ''versus'', ''vs'', ''between'']"

definition extract_indicators :: "string list" where
  "extract_indicators = [''extract'', ''list'', ''get all'', ''show me all'']"

definition summarize_indicators :: "string list" where
  "summarize_indicators = [''summarize'', ''summary'', ''main topics'', ''what about'', ''discuss'']"

text \<open>\<open>any(ind in query_lower for ind in indicators)\<close>.\<close>

definition any_in :: "string list \<Rightarrow> string \<Rightarrow> bool" where
  "any_in inds s = list_ex (contains s) inds"

text \<open>\<open>QueryPlanner._detect_intent\<close>.\<close>

definition detect_intent :: "string \<Rightarrow> QueryIntent" where
  "detect_intent q =
     (let query_lower = lower q in
      if any_in exhaustive_indicators query_lower then EXHAUSTIVE_EXTRACT
      else if list_ex (\<lambda>p. re_search p query_lower) opinion_patterns then EXHAUSTIVE_EXTRACT
      else if any_in search_indicators query_lower then SEARCH
      else if any_in count_indicators query_lower then COUNT
      else if any_in timeline_indicators query_lower then TIMELINE
      else if any_in compare_indicators query_lower then COMPARE
      else if any_in extract_indicators query_lower then EXTRACT
      else if any_in summarize_indicators query_lower then SUMMARIZE
      else if contains q ''?'' \<or> startswith query_lower ''what'' \<or> startswith query_lower ''why''
              \<or> startswith query_lower ''how'' then ANALYZE
      else SUMMARIZE)"

section \<open>Chunker (chunker.py)\<close>

datatype py_error = ZeroDivisionError | ValueError | IndexError

text \<open>
  A record of the collection is a dictionary; the fields the chunker and the citation
  verifier read hold strings, so a record is an association list from field names to
  strings, read with \<open>map_of\<close>.
\<close>

type_synonym json_record = "(string \<times> string) list"

text \<open>\<open>r.get(field, default)\<close>.\<close>

definition get_field :: "json_record \<Rightarrow> string \<Rightarrow> string \<Rightarrow> string" where
  "get_field r f dflt = (case map_of r f of None \<Rightarrow> dflt | Some v \<Rightarrow> v)"

text \<open>Python's \<open>xs[i:j]\<close>, negative bounds counted from the end.\<close>

definition py_slice :: "'a list \<Rightarrow> int \<Rightarrow> int \<Rightarrow> 'a list" where
  "py_slice xs i j =
     (let n = int (length xs);
          i' = (if i < 0 then max (i + n) 0 else min i n);
          j' = (if j < 0 then max (j + n) 0 else min j n)
      in take (nat (j' - i')) (drop (nat i') xs))"

datatype ChunkingStrategy = AUTO | RECORDS | TIME_BASED | SIZE_BASED | FIELD_BASED

datatype JsonFormat = DISCORD | SLACK | TWITTER | GENERIC_ARRAY | GENERIC_OBJECT | JSONL | UNKNOWN

record Chunk =
  index :: int
  total_chunks :: "int option"
  records :: "json_record list"
  text_content :: string
  record_count :: int
  start_record_index :: int
  end_record_index :: int
  char_count :: int
  group_key :: "string option"
  group_value :: "string option"
  start_timestamp :: "string option"
  end_timestamp :: "string option"

text \<open>
  The state of a \<open>JsonChunker\<close>. \<open>format_record\<close> stands for \<open>_format_record\<close>, the
  formatter the schema's format selects (its layouts and \<open>json.dumps\<close> are not
  modelled); \<open>schema_format\<close> and \<open>timestamp_field\<close> are the fields of the schema the
  chunker reads.
\<close>

record JsonChunker =
  format_record :: "json_record \<Rightarrow> string"
  schema_format :: JsonFormat
  timestamp_field :: "string option"
  max_chunk_size :: int
  strategy :: ChunkingStrategy
  group_field :: "string option"
  records_per_chunk :: int
  overlap :: int

text \<open>Truthiness of an \<open>Optional[str]\<close>: neither \<open>None\<close> nor the empty string.\<close>

fun truthy_str :: "string option \<Rightarrow> bool" where
  "truthy_str None = False"
| "truthy_str (Some s) = (s \<noteq> [])"

definition detect_strategy :: "JsonChunker \<Rightarrow> ChunkingStrategy" where
  "detect_strategy ch =
     (if schema_format ch = DISCORD then
        (if truthy_str (timestamp_field ch) then TIME_BASED else RECORDS)
      else if schema_format ch = SLACK then TIME_BASED
      else if truthy_str (timestamp_field ch) then TIME_BASED
      else SIZE_BASED)"

definition auto_strategy :: "JsonChunker \<Rightarrow> ChunkingStrategy" where
  "auto_strategy ch = (if strategy ch = AUTO then detect_strategy ch else strategy ch)"

fun str_min :: "string list \<Rightarrow> string" where
  "str_min [] = []"
| "str_min (x # xs) = fold min xs x"

fun str_max :: "string list \<Rightarrow> string" where
  "str_max [] = []"
| "str_max (x # xs) = fold max xs x"

text \<open>\<open>JsonChunker._create_chunk\<close>.\<close>

definition create_chunk ::
  "JsonChunker \<Rightarrow> json_record list \<Rightarrow> int \<Rightarrow> int \<Rightarrow> int \<Rightarrow> string option \<Rightarrow> string option \<Rightarrow> Chunk" where
  "create_chunk ch recs idx total_n start_idx gk gv =
     (let text = join ''\<newline>\<newline>'' (map (format_record ch) recs);
          timestamps = (if truthy_str (timestamp_field ch)
                        then filter (\<lambda>t. t \<noteq> [])
                               (map (\<lambda>r. get_field r (the (timestamp_field ch)) []) recs)
                        else [])
      in \<lparr> index = idx, total_chunks = Some total_n, records = recs, text_content = text,
           record_count = int (length recs), start_record_index = start_idx,
           end_record_index = start_idx + int (length recs) - 1,
           char_count = int (length text), group_key = gk, group_value = gv,
           start_timestamp = (if timestamps = [] then None else Some (str_min timestamps)),
           end_timestamp = (if timestamps = [] then None else Some (str_max timestamps)) \<rparr>)"

text \<open>
  \<open>JsonChunker._chunk_by_records\<close>. The \<open>while\<close> loop need not end (with a positive
  overlap the start index stops advancing), so the loop is a partial function whose
  value \<open>None\<close> is "does not return"; the division by \<open>records_per_chunk\<close> raises
  before the first chunk when it is zero.
\<close>

definition records_end :: "JsonChunker \<Rightarrow> json_record list \<Rightarrow> int \<Rightarrow> int" where
  "records_end ch recs start = min (start + records_per_chunk ch) (int (length recs))"

definition records_next :: "JsonChunker \<Rightarrow> json_record list \<Rightarrow> int \<Rightarrow> int" where
  "records_next ch recs start =
     (if overlap ch > 0 then records_end ch recs start - overlap ch else records_end ch recs start)"

partial_function (option) records_loop ::
  "JsonChunker \<Rightarrow> json_record list \<Rightarrow> int \<Rightarrow> int \<Rightarrow> int \<Rightarrow> Chunk list \<Rightarrow> Chunk list option" where
  "records_loop ch recs total_n start chunk_index acc =
     (if start < int (length recs)
      then records_loop ch recs total_n (records_next ch recs start) (chunk_index + 1)
             (acc @ [create_chunk ch (py_slice recs start (records_end ch recs start))
                       chunk_index total_n start None None])
      else Some acc)"

declare records_loop.simps [code]

definition chunk_by_records :: "JsonChunker \<Rightarrow> json_record list \<Rightarrow> (py_error + Chunk list) option" where
  "chunk_by_records ch recs =
     (if records_per_chunk ch = 0 then Some (Inl ZeroDivisionError)
      else map_option Inr
             (records_loop ch recs
                ((int (length recs) + records_per_chunk ch - 1) div records_per_chunk ch) 0 0 []))"

text \<open>
  \<open>JsonChunker._chunk_by_size\<close>: the \<open>for\<close> loop over \<open>enumerate(records)\<close> with its
  four variables, then the numbering of the collected groups.
\<close>

fun size_loop ::
  "JsonChunker \<Rightarrow> (nat \<times> json_record) list \<Rightarrow> (json_record list \<times> int) list \<Rightarrow>
   json_record list \<Rightarrow> int \<Rightarrow> int \<Rightarrow> (json_record list \<times> int) list" where
  "size_loop ch [] chunks current_records current_size start_idx =
     (if current_records \<noteq> [] then chunks @ [(current_records, start_idx)] else chunks)"
| "size_loop ch ((i, r) # rest) chunks current_records current_size start_idx =
     (let record_size = int (length (format_record ch r)) in
      if current_size + record_size > max_chunk_size ch \<and> current_records \<noteq> []
      then size_loop ch rest (chunks @ [(current_records, start_idx)]) [r] record_size (int i)
      else size_loop ch rest chunks (current_records @ [r]) (current_size + record_size) start_idx)"

definition chunk_by_size :: "JsonChunker \<Rightarrow> json_record list \<Rightarrow> Chunk list" where
  "chunk_by_size ch recs =
     (let chunks = size_loop ch (enumerate 0 recs) [] [] 0 0;
          total_n = int (length chunks)
      in map (\<lambda>(idx, (chunk_records, start)). create_chunk ch chunk_records (int idx) total_n start None None)
           (enumerate 0 chunks))"

text \<open>
  Grouping into a dictionary of lists, in insertion order of the keys
  (\<open>groups[key].append(record)\<close>).
\<close>

fun group_append :: "(string \<times> json_record list) list \<Rightarrow> string \<Rightarrow> json_record \<Rightarrow> (string \<times> json_record list) list" where
  "group_append [] k r = [(k, [r])]"
| "group_append ((k', rs) # gs) k r =
     (if k' = k then (k', rs @ [r]) # gs else (k', rs) # group_append gs k r)"

definition group_by :: "(json_record \<Rightarrow> string) \<Rightarrow> json_record list \<Rightarrow> (string \<times> json_record list) list" where
  "group_by key recs = fold (\<lambda>r gs. group_append gs (key r) r) recs []"

text \<open>Re-labelling of the sub-chunks a group yields, numbered from \<open>chunk_index\<close>.\<close>

definition relabel :: "Chunk list \<Rightarrow> int \<Rightarrow> string \<Rightarrow> string \<Rightarrow> Chunk list" where
  "relabel subs chunk_index gk gv =
     map (\<lambda>(k, c). c\<lparr> index := chunk_index + int k, group_key := Some gk, group_value := Some gv \<rparr>)
       (enumerate 0 subs)"

text \<open>\<open>JsonChunker._chunk_by_time\<close>.\<close>

definition day_of :: "string \<Rightarrow> json_record \<Rightarrow> string" where
  "day_of tf r =
     (let ts = get_field r tf [] in
      if ts \<noteq> [] then (if length ts \<ge> 10 then take 10 ts else ts) else ''unknown'')"

fun time_loop ::
  "JsonChunker \<Rightarrow> int \<Rightarrow> (string \<times> json_record list) list \<Rightarrow> int \<Rightarrow> Chunk list \<Rightarrow>
   (py_error + Chunk list) option" where
  "time_loop ch total_n [] chunk_index acc = Some (Inr acc)"
| "time_loop ch total_n ((day, day_records) # gs) chunk_index acc =
     (if int (length day_records) > records_per_chunk ch * 2 then
        (case chunk_by_records ch day_records of
           None \<Rightarrow> None
         | Some (Inl e) \<Rightarrow> Some (Inl e)
         | Some (Inr subs) \<Rightarrow>
             time_loop ch total_n gs (chunk_index + int (length subs))
               (acc @ relabel subs chunk_index ''date'' day))
      else time_loop ch total_n gs (chunk_index + 1)
             (acc @ [create_chunk ch day_records chunk_index total_n 0 (Some ''date'') (Some day)]))"

definition chunk_by_time :: "JsonChunker \<Rightarrow> json_record list \<Rightarrow> (py_error + Chunk list) option" where
  "chunk_by_time ch recs =
     (if \<not> truthy_str (timestamp_field ch) then chunk_by_records ch recs
      else
        (let tf = the (timestamp_field ch);
             sorted_records = sort_key (\<lambda>r. get_field r tf []) recs;
             groups = group_by (day_of tf) sorted_records
         in time_loop ch (int (length groups)) (sort_key fst groups) 0 []))"

text \<open>\<open>JsonChunker._chunk_by_field\<close>.\<close>

fun field_loop ::
  "JsonChunker \<Rightarrow> string \<Rightarrow> (string \<times> json_record list) list \<Rightarrow> int \<Rightarrow> Chunk list \<Rightarrow> Chunk list" where
  "field_loop ch gf [] chunk_index acc = acc"
| "field_loop ch gf ((field_value, group_records) # gs) chunk_index acc =
     (let subs = chunk_by_size ch group_records in
      field_loop ch gf gs (chunk_index + int (length subs))
        (acc @ relabel subs chunk_index gf field_value))"

definition chunk_by_field :: "JsonChunker \<Rightarrow> json_record list \<Rightarrow> (py_error + Chunk list) option" where
  "chunk_by_field ch recs =
     (if \<not> truthy_str (group_field ch) then chunk_by_records ch recs
      else
        (let gf = the (group_field ch);
             groups = group_by (\<lambda>r. get_field r gf ''unknown'') recs
         in Some (Inr (field_loop ch gf groups 0 []))))"

text \<open>\<open>JsonChunker._chunk_array\<close>, consumed as \<open>list(chunker.chunk_from_data(data))\<close>.\<close>

definition chunk_array :: "JsonChunker \<Rightarrow> json_record list \<Rightarrow> (py_error + Chunk list) option" where
  "chunk_array ch recs =
     (if auto_strategy ch = FIELD_BASED \<and> truthy_str (group_field ch) then chunk_by_field ch recs
      else if auto_strategy ch = TIME_BASED \<and> truthy_str (timestamp_field ch) then chunk_by_time ch recs
      else if auto_strategy ch = SIZE_BASED then Some (Inr (chunk_by_size ch recs))
      else chunk_by_records ch recs)"

text \<open>The record indices a chunk list addresses, through the chunks' index ranges.\<close>

definition chunk_indices :: "Chunk \<Rightarrow> int list" where
  "chunk_indices c = [start_record_index c ..  end_record_index c]"

definition covered_indices :: "Chunk list \<Rightarrow> int list" where
  "covered_indices cs = concat (map chunk_indices cs)"

text \<open>Sizes as \<open>_chunk_by_size\<close> measures them, and well-numbered groups of records.\<close>

definition rec_size :: "JsonChunker \<Rightarrow> json_record \<Rightarrow> int" where
  "rec_size ch r = int (length (format_record ch r))"

definition seg_size :: "JsonChunker \<Rightarrow> json_record list \<Rightarrow> int" where
  "seg_size ch rs = sum_list (map (rec_size ch) rs)"

fun segs_from :: "int \<Rightarrow> ('a list \<times> int) list \<Rightarrow> bool" where
  "segs_from b [] = True"
| "segs_from b ((rs, s) # segs) = (s = b \<and> rs \<noteq> [] \<and> segs_from (b + int (length rs)) segs)"

section \<open>Concrete inputs\<close>

text \<open>A chunker over records with a \<open>content\<close> and a \<open>ts\<close> field, formatted by their content.\<close>

definition content_chunker :: "int \<Rightarrow> ChunkingStrategy \<Rightarrow> JsonChunker" where
  "content_chunker bound strat =
     \<lparr> format_record = (\<lambda>r. get_field r ''content'' []), schema_format = GENERIC_ARRAY,
       timestamp_field = Some ''ts'', max_chunk_size = bound, strategy = strat,
       group_field = Some ''channel'', records_per_chunk = 100, overlap = 0 \<rparr>"

definition content_record :: "string \<Rightarrow> json_record" where
  "content_record s = [(''content'', s)]"

section \<open>More string operations\<close>

text \<open>
  Whitespace as \<open>str.strip()\<close> and \<open>str.split()\<close> see it, on the ASCII range:
  tab to carriage return, the separators \<open>0x1C\<close> to \<open>0x1F\<close>, and the space.
\<close>

definition is_space :: "char \<Rightarrow> bool" where
  "is_space c = (let n = (of_char c :: nat) in (9 \<le> n \<and> n \<le> 13) \<or> (28 \<le> n \<and> n \<le> 32))"

definition strip_chars :: "(char \<Rightarrow> bool) \<Rightarrow> string \<Rightarrow> string" where
  "strip_chars p s = rev (dropWhile p (rev (dropWhile p s)))"

definition strip :: "string \<Rightarrow> string" where
  "strip s = strip_chars is_space s"

text \<open>\<open>s.split(sep)\<close> for a one-character separator: never an empty list.\<close>

fun split_on :: "char \<Rightarrow> string \<Rightarrow> string list" where
  "split_on sep [] = [[]]"
| "split_on sep (c # cs) =
     (if c = sep then [] # split_on sep cs
      else (case split_on sep cs of [] \<Rightarrow> [[c]] | w # ws \<Rightarrow> (c # w) # ws))"

text \<open>\<open>s.split()\<close>: the maximal runs of non-whitespace characters.\<close>

fun split_ws_aux :: "string \<Rightarrow> string \<Rightarrow> string list" where
  "split_ws_aux cur [] = (if cur = [] then [] else [cur])"
| "split_ws_aux cur (c # cs) =
     (if is_space c then (if cur = [] then split_ws_aux [] cs else cur # split_ws_aux [] cs)
      else split_ws_aux (cur @ [c]) cs)"

definition split_ws :: "string \<Rightarrow> string list" where
  "split_ws s = split_ws_aux [] s"

text \<open>
  \<open>int(s)\<close> on the strings \<open>str(int)\<close> produces and their malformed neighbours: optional
  surrounding whitespace, an optional sign and a non-empty run of digits; anything else
  raises \<open>ValueError\<close> (here \<open>None\<close>). Underscore separators are not modelled.
\<close>

definition digits_value :: "string \<Rightarrow> nat" where
  "digits_value ds = fold (\<lambda>c n. 10 * n + (of_char c - 48)) ds 0"

definition nat_of_str :: "string \<Rightarrow> nat option" where
  "nat_of_str ds = (if ds \<noteq> [] \<and> list_all is_digit ds then Some (digits_value ds) else None)"

definition int_of_str :: "string \<Rightarrow> int option" where
  "int_of_str s =
     (case strip s of
        [] \<Rightarrow> None
      | c # cs \<Rightarrow>
          if c = CHR ''-'' then map_option (\<lambda>n. - int n) (nat_of_str cs)
          else if c = CHR ''+'' then map_option int (nat_of_str cs)
          else map_option int (nat_of_str (c # cs)))"

text \<open>Python's \<open>xs[i]\<close>: a negative index counts from the end, out of range raises.\<close>

definition py_index :: "'a list \<Rightarrow> int \<Rightarrow> py_error + 'a" where
  "py_index xs i =
     (if int (length xs) \<le> i \<or> i < - int (length xs) then Inl IndexError
      else if i < 0 then Inr (xs ! nat (i + int (length xs)))
      else Inr (xs ! nat i))"

section \<open>Citations (citation.py)\<close>

datatype Sentiment = POSITIVE | NEGATIVE | NEUTRAL | MIXED

record Citation =
  quote :: string
  author :: "string option"
  cit_timestamp :: "string option"
  channel :: "string option"
  message_id :: "string option"
  chunk_index :: int
  record_index :: int
  cit_file_path :: "string option"
  context_before :: "string option"
  context_after :: "string option"
  sentiment :: Sentiment
  key_insight :: "string option"
  relevance_score :: real

text \<open>\<open>Citation.__post_init__\<close>: the quote is stripped and loses one pair of double quotes.\<close>

definition clean_quote :: "string \<Rightarrow> string" where
  "clean_quote q =
     (let q1 = strip q in
      if startswith q1 [CHR 0x22] \<and> startswith (rev q1) [CHR 0x22] then py_slice q1 1 (- 1) else q1)"

text \<open>
  The constructor call \<open>Citation(quote=..., author=..., timestamp=..., channel=...,
  chunk_index=..., record_index=..., file_path=..., sentiment=..., key_insight=...)\<close> with
  the defaults of the remaining fields.
\<close>

definition mk_citation ::
  "string \<Rightarrow> string option \<Rightarrow> string option \<Rightarrow> string option \<Rightarrow> int \<Rightarrow> int \<Rightarrow> string option \<Rightarrow>
   Sentiment \<Rightarrow> string option \<Rightarrow> Citation" where
  "mk_citation q au ts chan ci ri fp sent insight =
     \<lparr> quote = clean_quote q, author = au, cit_timestamp = ts, channel = chan, message_id = None,
       chunk_index = ci, record_index = ri, cit_file_path = fp,
       context_before = None, context_after = None,
       sentiment = sent, key_insight = insight, relevance_score = 0 \<rparr>"

text \<open>\<open>Citation.reference_id\<close>.\<close>

definition reference_id :: "Citation \<Rightarrow> string" where
  "reference_id c = str_int (chunk_index c) @ ''.'' @ str_int (record_index c)"

record CitationReport =
  rep_query :: string
  rep_file_path :: "string option"
  citations :: "Citation list"
  total_found :: int
  rep_unique_authors :: int
  sentiment_breakdown :: "(string \<times> int) list"
  verified :: bool
  verification_issues :: "string list"
  generated_at :: string

text \<open>
  The unpacking \<open>chunk_idx, record_idx = map(int, reference_id.split("."))\<close>: \<open>int\<close> is
  applied to the parts in order as the unpacking draws them, and every failure is a
  \<open>ValueError\<close>, returned with its message.
\<close>

definition invalid_literal :: "string \<Rightarrow> string" where
  "invalid_literal s = ''invalid literal for int() with base 10: '' @ [CHR 0x27] @ s @ [CHR 0x27]"

fun parse_reference :: "string list \<Rightarrow> string + (int \<times> int)" where
  "parse_reference [] = Inl ''not enough values to unpack (expected 2, got 0)''"
| "parse_reference [a] =
     (case int_of_str a of None \<Rightarrow> Inl (invalid_literal a)
      | Some x \<Rightarrow> Inl ''not enough values to unpack (expected 2, got 1)'')"
| "parse_reference [a, b] =
     (case int_of_str a of None \<Rightarrow> Inl (invalid_literal a)
      | Some x \<Rightarrow> (case int_of_str b of None \<Rightarrow> Inl (invalid_literal b) | Some y \<Rightarrow> Inr (x, y)))"
| "parse_reference (a # b # c # rest) =
     (case int_of_str a of None \<Rightarrow> Inl (invalid_literal a)
      | Some x \<Rightarrow> (case int_of_str b of None \<Rightarrow> Inl (invalid_literal b)
          | Some y \<Rightarrow> (case int_of_str c of None \<Rightarrow> Inl (invalid_literal c)
              | Some z \<Rightarrow> Inl ''too many values to unpack (expected 2)'')))"

text \<open>
  The fuzzy match of \<open>verify\<close>: \<open>len(quote_words & content_words) / len(quote_words)\<close>
  over the sets of lower-cased words, \<open>0\<close> for an empty quote, compared with \<open>0.5\<close>.
  The quotient is a real number here; Python's float quotient compares with \<open>0.5\<close> the
  same way for any quote of fewer than \<open>2^53\<close> words.
\<close>

definition word_overlap :: "string \<Rightarrow> string \<Rightarrow> real" where
  "word_overlap q content =
     (let quote_words = remdups (split_ws (lower q));
          content_words = split_ws (lower content)
      in if quote_words = [] then 0
         else real (length (filter (\<lambda>w. w \<in> set content_words) quote_words))
                / real (length quote_words))"

text \<open>
  One iteration of the loop of \<open>CitationReport.verify\<close>: \<open>None\<close> when the citation
  counts as verified, otherwise the issue appended. \<open>py_str\<close> stands for Python's
  \<open>str\<close> of a dictionary, used when the record lacks the content field.
\<close>

definition verify_citation ::
  "(json_record \<Rightarrow> string) \<Rightarrow> json_record list \<Rightarrow> string \<Rightarrow> Citation \<Rightarrow> string option" where
  "verify_citation py_str dat content_field c =
     (case parse_reference (split_on CHR ''.'' (reference_id c)) of
        Inl msg \<Rightarrow> Some (''Ref '' @ reference_id c @ '': Verification error - '' @ msg)
      | Inr (chunk_idx, record_idx) \<Rightarrow>
          if record_idx < int (length dat) then
            (case py_index dat record_idx of
               Inl e \<Rightarrow> Some (''Ref '' @ reference_id c @ '': Verification error - list index out of range'')
             | Inr r \<Rightarrow>
                 let content = get_field r content_field (py_str r) in
                 if word_overlap (quote c) content > 0.5 then None
                 else Some (''Ref '' @ reference_id c @ '': Quote not found in record''))
          else Some (''Ref '' @ reference_id c @ '': Record index out of range''))"

text \<open>\<open>CitationReport.verify\<close>: the updated report and the returned flag.\<close>

definition verify ::
  "(json_record \<Rightarrow> string) \<Rightarrow> CitationReport \<Rightarrow> json_record list \<Rightarrow> string \<Rightarrow> CitationReport \<times> bool" where
  "verify py_str rep dat content_field =
     (let outcomes = map (verify_citation py_str dat content_field) (citations rep);
          issues = concat (map (\<lambda>out. case out of None \<Rightarrow> [] | Some i \<Rightarrow> [i]) outcomes);
          verified_count = length (filter (\<lambda>out. out = None) outcomes);
          ok = (verified_count = length (citations rep))
      in (rep\<lparr> verification_issues := issues, verified := ok \<rparr>, ok))"

text \<open>The report constructor with its defaults, \<open>_update_stats\<close> and \<open>add_citation\<close>.\<close>

definition new_report :: "string \<Rightarrow> string option \<Rightarrow> string \<Rightarrow> CitationReport" where
  "new_report q fp now =
     \<lparr> rep_query = q, rep_file_path = fp, citations = [], total_found = 0,
       rep_unique_authors = 0, sentiment_breakdown = [], verified = False,
       verification_issues = [], generated_at = now \<rparr>"

definition count_sentiment :: "Sentiment \<Rightarrow> Citation list \<Rightarrow> int" where
  "count_sentiment s cs = int (length (filter (\<lambda>c. sentiment c = s) cs))"

definition update_stats :: "CitationReport \<Rightarrow> CitationReport" where
  "update_stats rep =
     rep\<lparr> rep_unique_authors :=
            int (length (remdups (filter (\<lambda>a. a \<noteq> [])
                   (concat (map (\<lambda>c. case author c of None \<Rightarrow> [] | Some a \<Rightarrow> [a]) (citations rep)))))),
          sentiment_breakdown :=
            [(''positive'', count_sentiment POSITIVE (citations rep)),
             (''negative'', count_sentiment NEGATIVE (citations rep)),
             (''neutral'', count_sentiment NEUTRAL (citations rep)),
             (''mixed'', count_sentiment MIXED (citations rep))] \<rparr>"

definition add_citation :: "CitationReport \<Rightarrow> Citation \<Rightarrow> CitationReport" where
  "add_citation rep c =
     update_stats (rep\<lparr> citations := citations rep @ [c],
                        total_found := int (length (citations rep @ [c])) \<rparr>)"

section \<open>Citation extraction (citation.py)\<close>

text \<open>
  \<open>extract_from_response\<close> finds its citation blocks with \<open>re.finditer\<close> and reads the
  capture groups of each match. The regular-expression engine is a parameter of the model:
  \<open>finditer_findings\<close> is \<open>re.finditer(finding_pattern, response, re.DOTALL | re.IGNORECASE)\<close>
  as the list of its matches (groups 1 and 2 and the end offset), \<open>search_insight\<close> is
  group 1 of \<open>re.search\<close> for the insight pattern, and \<open>finditer_blockquotes\<close> lists
  group 1 of the matches of the fallback pattern.
\<close>

record finding_match =
  group1 :: string
  group2 :: string
  match_end :: nat

record re_engine =
  finditer_findings :: "string \<Rightarrow> finding_match list"
  search_insight :: "string \<Rightarrow> string option"
  finditer_blockquotes :: "string \<Rightarrow> string list"

text \<open>The timestamp tests \<^verbatim>\<open>re.match(r'\d{4}[-/]', part)\<close> and \<^verbatim>\<open>re.match(r'\d{1,2}:\d{2}', part)\<close>.\<close>

definition date_pattern :: regex where
  "date_pattern = seqs [Digit, Digit, Digit, Digit, OneOf ''-/'']"

definition time_pattern :: regex where
  "time_pattern = seqs [Digit, Opt Digit, Lit '':'', Digit, Digit]"

text \<open>The loop over the parts of the source line, on the triple (author, timestamp, channel).\<close>

fun parse_source_parts ::
  "string list \<Rightarrow> string option \<times> string option \<times> string option \<Rightarrow>
   string option \<times> string option \<times> string option" where
  "parse_source_parts [] acc = acc"
| "parse_source_parts (part # parts) (au, ts, chan) =
     (if startswith part ''@'' then parse_source_parts parts (Some (tl part), ts, chan)
      else if contains part ''#'' then
        parse_source_parts parts (au, ts, Some (strip (filter (\<lambda>c. c \<noteq> CHR ''#'') part)))
      else if re_match date_pattern part \<or> re_match time_pattern part then
        parse_source_parts parts (au, Some part, chan)
      else parse_source_parts parts (au, ts, chan))"

definition detect_sentiment :: "string \<Rightarrow> Sentiment" where
  "detect_sentiment text_after =
     (if contains text_after ''positive'' then POSITIVE
      else if contains text_after ''negative'' then NEGATIVE
      else if contains text_after ''mixed'' then MIXED
      else NEUTRAL)"

definition is_quote_char :: "char \<Rightarrow> bool" where
  "is_quote_char c = (c = CHR 0x22 \<or> c = CHR 0x27)"

text \<open>The body of the loop over the matches, for the match numbered \<open>record_idx\<close>.\<close>

definition finding_citation ::
  "re_engine \<Rightarrow> string \<Rightarrow> int \<Rightarrow> string option \<Rightarrow> finding_match \<Rightarrow> int \<Rightarrow> Citation" where
  "finding_citation re response ci fp m record_idx =
     (let q = strip_chars is_quote_char (strip (group1 m));
          source_line = strip (group2 m);
          source_parts = map strip (split_on CHR ''|'' source_line);
          (au, ts, chan) = parse_source_parts source_parts (None, None, None);
          text_after = lower (take 200 (drop (match_end m) response));
          insight = map_option strip (search_insight re (take 500 (drop (match_end m) response)))
      in mk_citation q au ts chan ci record_idx fp (detect_sentiment text_after) insight)"

fun finding_citations ::
  "re_engine \<Rightarrow> string \<Rightarrow> int \<Rightarrow> string option \<Rightarrow> finding_match list \<Rightarrow> int \<Rightarrow> Citation list" where
  "finding_citations re response ci fp [] record_idx = []"
| "finding_citations re response ci fp (m # ms) record_idx =
     finding_citation re response ci fp m record_idx
       # finding_citations re response ci fp ms (record_idx + 1)"

text \<open>The fallback over bare block quotes, numbered by \<open>enumerate\<close>.\<close>

definition blockquote_citations :: "int \<Rightarrow> string option \<Rightarrow> string list \<Rightarrow> Citation list" where
  "blockquote_citations ci fp qs =
     map (\<lambda>(i, q). mk_citation (strip q) None None None ci (int i) fp NEUTRAL None)
       (filter (\<lambda>(i, q). length (strip q) > 10) (enumerate 0 qs))"

text \<open>\<open>CitationExtractor.extract_from_response\<close>.\<close>

definition extract_from_response :: "re_engine \<Rightarrow> string \<Rightarrow> int \<Rightarrow> string option \<Rightarrow> Citation list" where
  "extract_from_response re response ci fp =
     (let cs = finding_citations re response ci fp (finditer_findings re response) 0
      in if cs = [] then blockquote_citations ci fp (finditer_blockquotes re response) else cs)"

text \<open>
  A response of one finding in the citation schema, and the engine's answer on it: the
  finding pattern matches once, from the heading to the end of the \<open>Source\<close> line, with
  the quote in group 1 and the attribution in group 2.
\<close>

definition pricing_response :: string where
  "pricing_response =
     ''### Finding 1\<newline>> '' @ [CHR 0x22] @ ''the pro plan is too expensive'' @ [CHR 0x22] @
     ''\<newline>**Source:** @bob | 2024-01-03 | #general\<newline>**Sentiment:** Negative\<newline>''"

definition pricing_engine :: re_engine where
  "pricing_engine =
     \<lparr> finditer_findings = (\<lambda>response.
          if response = pricing_response
          then [\<lparr> group1 = ''the pro plan is too expensive'',
                   group2 = ''@bob | 2024-01-03 | #general'', match_end = 89 \<rparr>]
          else []),
       search_insight = (\<lambda>text. None),
       finditer_blockquotes = (\<lambda>response.
          if response = pricing_response then [''the pro plan is too expensive''] else []) \<rparr>"

definition pricing_records :: "json_record list" where
  "pricing_records =
     [[(''author'', ''alice''), (''content'', ''hello everyone'')],
      [(''author'', ''carol''), (''content'', ''any news on the roadmap'')],
      [(''author'', ''bob''), (''content'', ''the pro plan is too expensive'')]]"

section \<open>Query plans (query\_planner.py)\<close>

record FilterCriteria =
  fc_keywords :: "string list"
  exclude_keywords :: "string list"
  field_filters :: "(string \<times> string) list"
  date_range :: "(string \<times> string) option"
  author_filter :: "string option"
  channel_filter :: "string option"

record QueryPlan =
  plan_query :: string
  intent :: QueryIntent
  filter_criteria :: FilterCriteria
  require_full_scan :: bool
  chunk_limit :: "int option"
  parallel_ok :: bool
  chunk_prompt :: string
  aggregate_prompt :: string
  estimated_chunks :: "int option"
  estimated_tokens :: "int option"
  reasoning :: string

section \<open>Chunk executor (executor.py)\<close>

text \<open>\<open>Chunk.to_dict\<close>, the metadata dictionary stored on results and trace entries.\<close>

record ChunkMeta =
  m_index :: int
  m_total_chunks :: "int option"
  m_record_count :: int
  m_start_record_index :: int
  m_end_record_index :: int
  m_char_count :: int
  m_group_key :: "string option"
  m_group_value :: "string option"
  m_start_timestamp :: "string option"
  m_end_timestamp :: "string option"
  m_preview :: string

definition to_dict :: "Chunk \<Rightarrow> ChunkMeta" where
  "to_dict c =
     \<lparr> m_index = index c, m_total_chunks = total_chunks c, m_record_count = record_count c,
       m_start_record_index = start_record_index c, m_end_record_index = end_record_index c,
       m_char_count = char_count c, m_group_key = group_key c, m_group_value = group_value c,
       m_start_timestamp = start_timestamp c, m_end_timestamp = end_timestamp c,
       m_preview = (if length (text_content c) > 200 then take 200 (text_content c) @ ''...''
                    else text_content c) \<rparr>"

text \<open>\<open>Chunk.to_llm_context\<close> with \<open>include_metadata=True\<close>.\<close>

definition to_llm_context :: "Chunk \<Rightarrow> string" where
  "to_llm_context c =
     join ''\<newline>''
       ([''[Chunk '' @ str_int (index c + 1)
           @ (if truthy_int (total_chunks c) then '' of '' @ str_int (the (total_chunks c)) else [])
           @ '' | Records '' @ str_int (start_record_index c + 1) @ ''-''
           @ str_int (end_record_index c + 1) @ '']'']
        @ (if truthy_str (group_key c) \<and> truthy_str (group_value c)
           then [''['' @ the (group_key c) @ '': '' @ the (group_value c) @ '']''] else [])
        @ (if truthy_str (start_timestamp c) \<and> truthy_str (end_timestamp c)
           then [''[Time: '' @ the (start_timestamp c) @ '' to '' @ the (end_timestamp c) @ '']'']
           else [])
        @ [[], text_content c])"

record ChunkResult =
  cr_chunk_index :: int
  success :: bool
  content :: string
  cr_tokens_used :: int
  cr_duration_ms :: real
  was_cached :: bool
  was_filtered :: bool
  chunk_metadata :: "ChunkMeta option"

record ExecutionResult =
  er_query :: string
  er_success :: bool
  chunk_results :: "ChunkResult list"
  aggregated_content :: string
  er_total_chunks :: int
  er_chunks_processed :: int
  er_chunks_filtered :: int
  chunks_cached :: int
  er_total_tokens :: int
  er_total_duration_ms :: real
  er_error :: "string option"

text \<open>The \<open>data\<close> dictionaries the executor and the query loop attach to trace entries.\<close>

datatype trace_data =
    ChunkData ChunkMeta
  | ResponsePreview string
  | AnswerPreview string
  | PlanData QueryPlan

text \<open>
  The completion service: a call takes the prompt and returns the text with the tokens
  consumed, or raises (\<open>Inl\<close> carries \<open>str(e)\<close>); its own state is threaded through.
  \<open>md5_hex\<close> is \<open>hashlib.md5(...).hexdigest()\<close>. \<open>clock_now\<close> and \<open>elapsed_ms\<close> are
  the readings of the wall clock written to the trace and to results; no decision
  depends on them. \<open>schedule\<close> is the order in which the thread pool runs the submitted
  chunks.
\<close>

record 'l env =
  llm_complete :: "'l \<Rightarrow> string \<Rightarrow> (string + string \<times> int) \<times> 'l"
  md5_hex :: "string \<Rightarrow> string"
  clock_now :: string
  elapsed_ms :: real
  schedule :: "Chunk list \<Rightarrow> Chunk list"

text \<open>The constructor arguments of a \<open>ChunkExecutor\<close>, and what its methods mutate.\<close>

record exec_config =
  max_parallel :: int
  cache_enabled :: bool
  max_tokens_budget :: "int option"

record 'l exec_state =
  cache :: "string \<Rightarrow> ChunkResult option"
  exec_tokens_used :: int
  llm_state :: 'l
  trace :: "trace_data ExecutionTrace option"

text \<open>\<open>if trace: trace.add_entry(...)\<close> and \<open>if trace: trace.log_error(...)\<close>.\<close>

definition trace_add ::
  "'l env \<Rightarrow> TraceEventType \<Rightarrow> string \<Rightarrow> trace_data option \<Rightarrow> real option \<Rightarrow> int option \<Rightarrow>
   'l exec_state \<Rightarrow> 'l exec_state" where
  "trace_add env ev msg dat dur toks st =
     st\<lparr> trace := map_option (add_entry (clock_now env) ev msg dat dur toks) (trace st) \<rparr>"

definition trace_error :: "'l env \<Rightarrow> string \<Rightarrow> 'l exec_state \<Rightarrow> 'l exec_state" where
  "trace_error env msg st = st\<lparr> trace := map_option (log_error (clock_now env) msg None) (trace st) \<rparr>"

text \<open>\<open>ChunkExecutor._cache_key\<close>.\<close>

definition cache_key :: "'l env \<Rightarrow> Chunk \<Rightarrow> string \<Rightarrow> string" where
  "cache_key env c q = md5_hex env (str_int (index c) @ '':'' @ take 1000 (text_content c) @ '':'' @ q)"

text \<open>\<open>ChunkExecutor._process_chunk\<close>.\<close>

definition process_chunk ::
  "'l env \<Rightarrow> exec_config \<Rightarrow> QueryPlan \<Rightarrow> Chunk \<Rightarrow> 'l exec_state \<Rightarrow> ChunkResult \<times> 'l exec_state" where
  "process_chunk env cfg plan c st =
     (let key = cache_key env c (plan_query plan) in
      if cache_enabled cfg \<and> cache st key \<noteq> None then
        (\<lparr> cr_chunk_index = index c, success = True, content = content (the (cache st key)),
            cr_tokens_used = 0, cr_duration_ms = 0, was_cached = True, was_filtered = False,
            chunk_metadata = Some (to_dict c) \<rparr>,
         trace_add env CHUNK_SKIP (''Chunk '' @ str_int (index c) @ '' served from cache'')
           None None None st)
      else
        (let prompt = chunk_prompt plan @ ''\<newline>\<newline>---\<newline>\<newline>'' @ to_llm_context c;
             st1 = trace_add env CHUNK_START
                     (''Processing chunk '' @ str_int (index c) @ '' ('' @ str_int (record_count c)
                        @ '' records)'')
                     (Some (ChunkData (to_dict c))) None None st
         in case llm_complete env (llm_state st1) prompt of
              (Inr (text, tokens), l') \<Rightarrow>
                (let result = \<lparr> cr_chunk_index = index c, success = True, content = text,
                                 cr_tokens_used = tokens, cr_duration_ms = elapsed_ms env,
                                 was_cached = False, was_filtered = False,
                                 chunk_metadata = Some (to_dict c) \<rparr>;
                     st2 = st1\<lparr> llm_state := l', exec_tokens_used := exec_tokens_used st1 + tokens \<rparr>;
                     st3 = (if cache_enabled cfg then st2\<lparr> cache := (cache st2)(key \<mapsto> result) \<rparr>
                            else st2)
                 in (result,
                     trace_add env CHUNK_END (''Chunk '' @ str_int (index c) @ '' processed'')
                       (Some (ResponsePreview (take 200 text))) (Some (elapsed_ms env))
                       (Some tokens) st3))
            | (Inl e, l') \<Rightarrow>
                (\<lparr> cr_chunk_index = index c, success = False, content = ''Error: '' @ e,
                    cr_tokens_used = 0, cr_duration_ms = elapsed_ms env,
                    was_cached = False, was_filtered = False, chunk_metadata = None \<rparr>,
                 trace_add env LLM_CALL_ERROR (''Chunk '' @ str_int (index c) @ '' failed: '' @ e)
                   None (Some (elapsed_ms env)) None (st1\<lparr> llm_state := l' \<rparr>))))"

text \<open>\<open>if self.max_tokens_budget and self._tokens_used >= self.max_tokens_budget\<close>.\<close>

definition budget_reached :: "exec_config \<Rightarrow> 'l exec_state \<Rightarrow> bool" where
  "budget_reached cfg st =
     (truthy_int (max_tokens_budget cfg) \<and> exec_tokens_used st \<ge> the (max_tokens_budget cfg))"

definition budget_result :: "Chunk \<Rightarrow> ChunkResult" where
  "budget_result c =
     \<lparr> cr_chunk_index = index c, success = False, content = ''Budget exceeded'',
       cr_tokens_used = 0, cr_duration_ms = 0, was_cached = False, was_filtered = True,
       chunk_metadata = None \<rparr>"

text \<open>\<open>ChunkExecutor._process_sequential\<close>.\<close>

fun process_sequential ::
  "'l env \<Rightarrow> exec_config \<Rightarrow> QueryPlan \<Rightarrow> Chunk list \<Rightarrow> 'l exec_state \<Rightarrow>
   ChunkResult list \<times> 'l exec_state" where
  "process_sequential env cfg plan [] st = ([], st)"
| "process_sequential env cfg plan (c # cs) st =
     (if budget_reached cfg st then
        (let (rs, st') = process_sequential env cfg plan cs st in (budget_result c # rs, st'))
      else
        (let (r, st1) = process_chunk env cfg plan c st;
             (rs, st') = process_sequential env cfg plan cs st1
         in (r # rs, st')))"

text \<open>
  \<open>ChunkExecutor._process_parallel\<close>: every chunk is submitted to the pool; the workers'
  calls of \<open>_process_chunk\<close> are taken one after the other in the pool's order, and the
  collected results are sorted by chunk index.
\<close>

fun process_each ::
  "'l env \<Rightarrow> exec_config \<Rightarrow> QueryPlan \<Rightarrow> Chunk list \<Rightarrow> 'l exec_state \<Rightarrow>
   ChunkResult list \<times> 'l exec_state" where
  "process_each env cfg plan [] st = ([], st)"
| "process_each env cfg plan (c # cs) st =
     (let (r, st1) = process_chunk env cfg plan c st;
          (rs, st') = process_each env cfg plan cs st1
      in (r # rs, st'))"

definition process_parallel ::
  "'l env \<Rightarrow> exec_config \<Rightarrow> QueryPlan \<Rightarrow> Chunk list \<Rightarrow> 'l exec_state \<Rightarrow>
   ChunkResult list \<times> 'l exec_state" where
  "process_parallel env cfg plan chunks st =
     (let (rs, st') = process_each env cfg plan (schedule env chunks) st
      in (sort_key cr_chunk_index rs, st'))"

text \<open>\<open>ChunkExecutor._filter_chunks\<close>.\<close>

definition chunk_passes :: "FilterCriteria \<Rightarrow> Chunk \<Rightarrow> bool" where
  "chunk_passes criteria c =
     (let text_lower = lower (text_content c) in
      (fc_keywords criteria = [] \<or> list_ex (\<lambda>kw. contains text_lower (lower kw)) (fc_keywords criteria)) \<and>
      (\<not> truthy_str (channel_filter criteria)
         \<or> contains text_lower (lower (the (channel_filter criteria)))) \<and>
      (\<not> truthy_str (author_filter criteria)
         \<or> contains text_lower (lower (the (author_filter criteria)))))"

definition filter_chunks :: "Chunk list \<Rightarrow> FilterCriteria \<Rightarrow> Chunk list" where
  "filter_chunks chunks criteria =
     (if fc_keywords criteria = [] \<and> \<not> truthy_str (channel_filter criteria)
          \<and> \<not> truthy_str (author_filter criteria)
      then chunks else filter (chunk_passes criteria) chunks)"

text \<open>\<open>ChunkExecutor._aggregate_results\<close>.\<close>

definition chunk_finding :: "ChunkResult \<Rightarrow> string" where
  "chunk_finding r = ''[Chunk '' @ str_int (cr_chunk_index r + 1) @ '']\<newline>'' @ content r"

definition aggregate_results ::
  "'l env \<Rightarrow> ChunkResult list \<Rightarrow> QueryPlan \<Rightarrow> 'l exec_state \<Rightarrow> string \<times> 'l exec_state" where
  "aggregate_results env results plan st =
     (let st1 = trace_add env AGGREGATE_START
                  (''Aggregating '' @ str_int (int (length results)) @ '' chunk results'')
                  None None None st;
          findings_text = join ''\<newline>\<newline>---\<newline>\<newline>'' (map chunk_finding results);
          prompt = aggregate_prompt plan @ ''\<newline>\<newline>---\<newline>\<newline>'' @ findings_text
      in case llm_complete env (llm_state st1) prompt of
           (Inr (text, tokens), l') \<Rightarrow>
             (text,
              trace_add env AGGREGATE_END ''Aggregation complete''
                (Some (AnswerPreview (take 200 text))) (Some (elapsed_ms env)) (Some tokens)
                (st1\<lparr> llm_state := l', exec_tokens_used := exec_tokens_used st1 + tokens \<rparr>))
         | (Inl e, l') \<Rightarrow>
             (''Aggregation failed. Raw findings:\<newline>\<newline>'' @ findings_text,
              trace_error env (''Aggregation failed: '' @ e) (st1\<lparr> llm_state := l' \<rparr>)))"

text \<open>
  \<open>ChunkExecutor.execute\<close>. Nothing inside its \<open>try\<close> block raises in this model (the
  completion failures are caught where the calls are made), so the \<open>except\<close> branch has no
  counterpart here.
\<close>

definition relevant_result :: "ChunkResult \<Rightarrow> bool" where
  "relevant_result r = (success r \<and> content r \<noteq> [] \<and> \<not> contains (content r) ''NO_RELEVANT_CONTENT'')"

definition execute ::
  "'l env \<Rightarrow> exec_config \<Rightarrow> Chunk list \<Rightarrow> QueryPlan \<Rightarrow> 'l exec_state \<Rightarrow>
   ExecutionResult \<times> 'l exec_state" where
  "execute env cfg chunks plan st0 =
     (let st = st0\<lparr> exec_tokens_used := 0 \<rparr>;
          filtered = filter_chunks chunks (filter_criteria plan);
          n_filtered = int (length chunks) - int (length filtered);
          st1 = trace_add env INFO
                  (''Filtered '' @ str_int n_filtered @ '' chunks, ''
                     @ str_int (int (length filtered)) @ '' remaining'') None None None st;
          limited = (truthy_int (chunk_limit plan) \<and> int (length filtered) > the (chunk_limit plan));
          filtered2 = (if limited then py_slice filtered 0 (the (chunk_limit plan)) else filtered);
          st2 = (if limited
                 then trace_add env WARNING
                        (''Limiting to '' @ str_int (the (chunk_limit plan)) @ '' chunks'')
                        None None None st1
                 else st1);
          (results, st3) = (if parallel_ok plan \<and> max_parallel cfg > 1
                            then process_parallel env cfg plan filtered2 st2
                            else process_sequential env cfg plan filtered2 st2);
          tokens_after = exec_tokens_used st3;
          st4 = (if budget_reached cfg st3
                 then trace_add env WARNING
                        (''Token budget exceeded: '' @ str_int (exec_tokens_used st3) @ ''/''
                           @ str_int (the (max_tokens_budget cfg))) None None None st3
                 else st3);
          relevant = filter relevant_result results;
          (aggregated, st5) = (if relevant \<noteq> [] then aggregate_results env relevant plan st4
                               else (''No relevant content found matching the query.'', st4))
      in (\<lparr> er_query = plan_query plan, er_success = True, chunk_results = results,
            aggregated_content = aggregated, er_total_chunks = int (length chunks),
            er_chunks_processed = int (length (filter (\<lambda>r. success r \<and> \<not> was_filtered r) results)),
            er_chunks_filtered = n_filtered,
            chunks_cached = int (length (filter was_cached results)),
            er_total_tokens = tokens_after, er_total_duration_ms = elapsed_ms env,
            er_error = None \<rparr>, st5))"

text \<open>
  A completion service that answers every prompt with the prompt's length as text and
  charges a fixed number of tokens, counting its calls; a hash that is the identity; a
  pool that runs the chunks in submission order.
\<close>

definition counting_env :: "int \<Rightarrow> nat env" where
  "counting_env cost =
     \<lparr> llm_complete = (\<lambda>calls prompt. (Inr (''seen '' @ str_int (int (length prompt)), cost), Suc calls)),
       md5_hex = (\<lambda>s. s), clock_now = ''now'', elapsed_ms = 0, schedule = (\<lambda>cs. cs) \<rparr>"

text \<open>A completion service that always raises.\<close>

definition failing_env :: "string \<Rightarrow> nat env" where
  "failing_env msg =
     \<lparr> llm_complete = (\<lambda>calls prompt. (Inl msg, Suc calls)),
       md5_hex = (\<lambda>s. s), clock_now = ''now'', elapsed_ms = 0, schedule = (\<lambda>cs. cs) \<rparr>"

definition fresh_state :: "nat exec_state" where
  "fresh_state = \<lparr> cache = (\<lambda>k. None), exec_tokens_used = 0, llm_state = 0, trace = None \<rparr>"

definition simple_plan :: "string \<Rightarrow> bool \<Rightarrow> QueryPlan" where
  "simple_plan q par =
     \<lparr> plan_query = q, intent = SUMMARIZE,
       filter_criteria = \<lparr> fc_keywords = [], exclude_keywords = [], field_filters = [],
                           date_range = None, author_filter = None, channel_filter = None \<rparr>,
       require_full_scan = True, chunk_limit = None, parallel_ok = par,
       chunk_prompt = ''Summarize.'', aggregate_prompt = ''Combine.'',
       estimated_chunks = None, estimated_tokens = None, reasoning = [] \<rparr>"

definition text_chunk :: "int \<Rightarrow> string \<Rightarrow> Chunk" where
  "text_chunk i s =
     \<lparr> index = i, total_chunks = None, records = [], text_content = s, record_count = 1,
       start_record_index = 0, end_record_index = 0, char_count = int (length s),
       group_key = None, group_value = None, start_timestamp = None, end_timestamp = None \<rparr>"

text \<open>A bound on what one completion call can cost: between 0 and \<open>M\<close> tokens.\<close>

definition llm_bounded :: "'l env \<Rightarrow> int \<Rightarrow> bool" where
  "llm_bounded env M =
     (0 \<le> M \<and> (\<forall>l p. case fst (llm_complete env l p) of Inl e \<Rightarrow> True
                                | Inr (t, n) \<Rightarrow> 0 \<le> n \<and> n \<le> M))"

section \<open>Result aggregator (aggregator.py)\<close>

text \<open>
  The strategy \<open>SUMMARIZE\<close> of the source is named \<open>SUMMARIZE_LLM\<close> here, the plain name
  being the query intent's.
\<close>

datatype AggregationStrategy = CONCATENATE | SUMMARIZE_LLM | HIERARCHICAL | MERGE

record AggregationResult =
  agg_content :: string
  strategy_used :: AggregationStrategy
  levels_of_aggregation :: int
  agg_tokens_used :: int
  source_chunks :: "int list"

text \<open>
  A \<open>ResultAggregator\<close>: whether it holds a completion client, and its two thresholds.
  The client itself is the completion service of the environment.
\<close>

record ResultAggregator =
  has_llm :: bool
  max_direct_aggregate_chars :: int
  max_results_per_level :: int

text \<open>\<open>ResultAggregator._concatenate\<close>.\<close>

definition concatenate :: "ChunkResult list \<Rightarrow> AggregationResult" where
  "concatenate results =
     \<lparr> agg_content =
         join ''\<newline>\<newline>---\<newline>\<newline>''
           (map (\<lambda>r. ''**[Chunk '' @ str_int (cr_chunk_index r + 1) @ '']**\<newline>'' @ content r) results),
       strategy_used = CONCATENATE, levels_of_aggregation = 1, agg_tokens_used = 0,
       source_chunks = map cr_chunk_index results \<rparr>"

text \<open>\<open>[xs[i:i + k] for i in range(0, len(xs), k)]\<close> for a positive step \<open>k\<close>.\<close>

function batches :: "nat \<Rightarrow> 'a list \<Rightarrow> 'a list list" where
  "batches k xs = (if k = 0 \<or> xs = [] then [] else take k xs # batches k (drop k xs))"
  by pat_completeness auto
termination
  by (relation "measure (\<lambda>(k, xs). length xs)") auto

text \<open>
  Level 1 of \<open>_hierarchical_aggregate\<close>: one completion call per group, numbered from
  \<open>i\<close>; the summaries, the tokens consumed and the new state.
\<close>

definition group_prompt :: "string \<Rightarrow> ChunkResult list \<Rightarrow> string" where
  "group_prompt q g =
     ''Summarize these findings for the query: '' @ q @ ''\<newline>\<newline>''
       @ join ''\<newline>\<newline>---\<newline>\<newline>'' (map chunk_finding g)
       @ ''\<newline>\<newline>Provide a concise summary preserving key information.''"

fun summarize_groups ::
  "'l env \<Rightarrow> string \<Rightarrow> ChunkResult list list \<Rightarrow> int \<Rightarrow> 'l exec_state \<Rightarrow>
   string list \<times> int \<times> 'l exec_state" where
  "summarize_groups env q [] i st = ([], 0, st)"
| "summarize_groups env q (g # gs) i st =
     (case llm_complete env (llm_state st) (group_prompt q g) of
        (Inr (reply, tokens), l') \<Rightarrow>
          (let (rest, t, st') = summarize_groups env q gs (i + 1) (st\<lparr> llm_state := l' \<rparr>)
           in (reply # rest, tokens + t, st'))
      | (Inl e, l') \<Rightarrow>
          (let (rest, t, st') = summarize_groups env q gs (i + 1) (st\<lparr> llm_state := l' \<rparr>)
           in ((''Group '' @ str_int i @ '' summary failed: '' @ e) # rest, t, st')))"

text \<open>One pass of the \<open>while\<close> loop: one completion call per batch of summaries.\<close>

definition combine_prompt :: "string \<Rightarrow> string list \<Rightarrow> string" where
  "combine_prompt q batch =
     ''Combine these summaries for the query: '' @ q @ ''\<newline>\<newline>''
       @ join ''\<newline>\<newline>---\<newline>\<newline>'' batch
       @ ''\<newline>\<newline>Provide a unified summary.''"

fun combine_batches ::
  "'l env \<Rightarrow> string \<Rightarrow> string list list \<Rightarrow> 'l exec_state \<Rightarrow> string list \<times> int \<times> 'l exec_state" where
  "combine_batches env q [] st = ([], 0, st)"
| "combine_batches env q (b # bs) st =
     (case llm_complete env (llm_state st) (combine_prompt q b) of
        (Inr (reply, tokens), l') \<Rightarrow>
          (let (rest, t, st') = combine_batches env q bs (st\<lparr> llm_state := l' \<rparr>)
           in (reply # rest, tokens + t, st'))
      | (Inl e, l') \<Rightarrow>
          (let (rest, t, st') = combine_batches env q bs (st\<lparr> llm_state := l' \<rparr>)
           in ((''Summary aggregation failed: '' @ e) # rest, t, st')))"

text \<open>
  The \<open>while len(level1_summaries) > self.max_results_per_level\<close> loop, on the tuple of
  the summaries, the level count, the token total and the state. It need not end (a
  level size of 1 never shrinks a list of two summaries), so \<open>None\<close> is "does not
  return". For a step that is not positive \<open>range\<close> yields no batch.
\<close>

type_synonym 'l reduce_state = "string list \<times> int \<times> int \<times> 'l exec_state"

definition reduce_step :: "'l env \<Rightarrow> string \<Rightarrow> int \<Rightarrow> 'l reduce_state \<Rightarrow> 'l reduce_state" where
  "reduce_step env q k s =
     (case s of (summaries, levels, tokens, st) \<Rightarrow>
        (case combine_batches env q (if k > 0 then batches (nat k) summaries else []) st of
           (new_summaries, t, st') \<Rightarrow> (new_summaries, levels + 1, tokens + t, st')))"

partial_function (option) reduce_loop ::
  "'l env \<Rightarrow> string \<Rightarrow> int \<Rightarrow> 'l reduce_state \<Rightarrow> 'l reduce_state option" where
  "reduce_loop env q k s =
     (if int (length (fst s)) > k then reduce_loop env q k (reduce_step env q k s) else Some s)"

declare reduce_loop.simps [code]

text \<open>The final synthesis call, with its fallback.\<close>

definition final_prompt :: "QueryPlan \<Rightarrow> string \<Rightarrow> string" where
  "final_prompt plan combined =
     aggregate_prompt plan @ ''\<newline>\<newline>AGGREGATED SUMMARIES:\<newline>\<newline>'' @ combined
       @ ''\<newline>\<newline>Provide the final, comprehensive answer to: '' @ plan_query plan"

definition final_aggregation ::
  "'l env \<Rightarrow> QueryPlan \<Rightarrow> 'l reduce_state \<Rightarrow> string \<times> int \<times> int \<times> 'l exec_state" where
  "final_aggregation env plan s =
     (case s of (summaries, levels, tokens, st) \<Rightarrow>
        if length summaries = 1 then (hd summaries, levels, tokens, st)
        else
          (let combined = join ''\<newline>\<newline>---\<newline>\<newline>'' summaries in
           case llm_complete env (llm_state st) (final_prompt plan combined) of
             (Inr (reply, t), l') \<Rightarrow> (reply, levels + 1, tokens + t, st\<lparr> llm_state := l' \<rparr>)
           | (Inl e, l') \<Rightarrow>
               (''Final aggregation failed: '' @ e @ ''\<newline>\<newline>'' @ combined, levels + 1, tokens,
                st\<lparr> llm_state := l' \<rparr>)))"

text \<open>
  \<open>ResultAggregator._hierarchical_aggregate\<close>. A level size of 0 makes \<open>range\<close> raise
  \<open>ValueError\<close> before anything else happens. The arrow in the trace message is written
  in the source with three characters outside ASCII, given here by their UTF-8 bytes.
\<close>

definition hierarchical_message :: "nat \<Rightarrow> nat \<Rightarrow> string" where
  "hierarchical_message n g =
     ''Hierarchical aggregation: '' @ str_int (int n) @ '' results ''
       @ [CHR 0xC3, CHR 0xA2, CHR 0xE2, CHR 0x80, CHR 0xA0, CHR 0xE2, CHR 0x80, CHR 0x99]
       @ '' '' @ str_int (int g) @ '' groups''"

definition hierarchical_aggregate ::
  "ResultAggregator \<Rightarrow> 'l env \<Rightarrow> ChunkResult list \<Rightarrow> QueryPlan \<Rightarrow> 'l exec_state \<Rightarrow>
   (py_error + AggregationResult \<times> 'l exec_state) option" where
  "hierarchical_aggregate agg env results plan st =
     (if \<not> has_llm agg then Some (Inr (concatenate results, st))
      else if max_results_per_level agg = 0 then Some (Inl ValueError)
      else
        (let k = max_results_per_level agg;
             groups = (if k > 0 then batches (nat k) results else []);
             st1 = trace_add env INFO (hierarchical_message (length results) (length groups))
                     None None None st;
             (level1, tokens, st2) = summarize_groups env (plan_query plan) groups 1 st1
         in case reduce_loop env (plan_query plan) k (level1, 1, tokens, st2) of
              None \<Rightarrow> None
            | Some s \<Rightarrow>
                (case final_aggregation env plan s of
                   (final_content, levels, tokens3, st3) \<Rightarrow>
                     Some (Inr (\<lparr> agg_content = final_content, strategy_used = HIERARCHICAL,
                                  levels_of_aggregation = levels, agg_tokens_used = tokens3,
                                  source_chunks = map cr_chunk_index results \<rparr>, st3)))))"

text \<open>A successful chunk result with the given content.\<close>

definition ok_result :: "int \<Rightarrow> string \<Rightarrow> ChunkResult" where
  "ok_result i s =
     \<lparr> cr_chunk_index = i, success = True, content = s, cr_tokens_used = 0, cr_duration_ms = 0,
       was_cached = False, was_filtered = False, chunk_metadata = None \<rparr>"

section \<open>The query call (core.py)\<close>

record VerificationResult =
  has_citations :: bool
  v_citations_found :: int
  v_citations_verified :: int
  v_unique_authors :: int
  positive_mentions :: int
  negative_mentions :: int
  neutral_mentions :: int
  issues :: "string list"
  v_reference_ids :: "string list"

text \<open>The \<open>data\<close> dictionaries of the entries written by the query call itself.\<close>

datatype query_data =
    ExecutorData trace_data
  | QueryStart string "string option"
  | PlanCreated QueryPlan
  | AnswerLength nat
  | VerificationData VerificationResult

type_synonym query_trace = "query_data ExecutionTrace"

record QueryResult =
  qr_answer :: string
  qr_success :: bool
  qr_query :: string
  qr_file_path :: "string option"
  qr_chunks_processed :: int
  qr_chunks_filtered :: int
  qr_total_tokens :: int
  qr_duration_ms :: real
  qr_trace :: "query_trace option"
  citation_report :: "CitationReport option"
  verification :: "VerificationResult option"
  qr_error :: "string option"

text \<open>
  The components \<open>JsonExplorer.query\<close> calls are parameters of the model: each acts on
  the trace and on the rest of the world (completion service, cache, files) and either
  returns a value or raises, \<open>Inl\<close> carrying \<open>str(e)\<close>. The theorems hold for every
  behaviour of the components.
\<close>

type_synonym ('w, 'a) phase = "query_trace \<times> 'w \<Rightarrow> (string + 'a) \<times> query_trace \<times> 'w"

record 'w components =
  planner_plan :: "string \<Rightarrow> ('w, QueryPlan) phase"
  get_chunks :: "('w, Chunk list) phase"
  executor_execute :: "Chunk list \<Rightarrow> QueryPlan \<Rightarrow> ('w, ExecutionResult) phase"
  aggregator_aggregate :: "ChunkResult list \<Rightarrow> QueryPlan \<Rightarrow> ('w, AggregationResult) phase"
  extract_and_verify_citations ::
    "string \<Rightarrow> string \<Rightarrow> ChunkResult list \<Rightarrow> ('w, CitationReport \<times> VerificationResult) phase"
  basic_verification :: "string \<Rightarrow> string \<Rightarrow> ('w, VerificationResult) phase"
  post_process_answer :: "string \<Rightarrow> string \<Rightarrow> VerificationResult option \<Rightarrow> ('w, string) phase"
  trace_save :: "query_trace \<Rightarrow> string \<Rightarrow> 'w \<Rightarrow> string option \<times> 'w"
  save_citation_report :: "CitationReport \<Rightarrow> string \<Rightarrow> 'w \<Rightarrow> string option \<times> 'w"

text \<open>What \<open>query\<close> reads of the explorer and of the clock.\<close>

record explorer =
  loaded :: bool
  ex_file_path :: "string option"
  trace_output_dir :: "string option"
  new_query_id :: string
  ex_now :: string
  ex_duration_ms :: real

text \<open>Sequencing of phases: an exception ends the sequence and keeps the state reached.\<close>

definition bind_phase :: "('w, 'a) phase \<Rightarrow> ('a \<Rightarrow> ('w, 'b) phase) \<Rightarrow> ('w, 'b) phase" where
  "bind_phase m f = (\<lambda>s. case m s of (Inl e, s') \<Rightarrow> (Inl e, s') | (Inr a, s') \<Rightarrow> f a s')"

definition return_phase :: "'a \<Rightarrow> ('w, 'a) phase" where
  "return_phase a = (\<lambda>s. (Inr a, s))"

definition on_trace :: "(query_trace \<Rightarrow> query_trace) \<Rightarrow> ('w, unit) phase" where
  "on_trace f = (\<lambda>(tr, w). (Inr (), f tr, w))"

fun intent_value :: "QueryIntent \<Rightarrow> string" where
  "intent_value SEARCH = ''search''"
| "intent_value SUMMARIZE = ''summarize''"
| "intent_value COUNT = ''count''"
| "intent_value ANALYZE = ''analyze''"
| "intent_value EXTRACT = ''extract''"
| "intent_value COMPARE = ''compare''"
| "intent_value TIMELINE = ''timeline''"
| "intent_value EXHAUSTIVE_EXTRACT = ''exhaustive''"

text \<open>\<open>TraceContext.__enter__\<close>: a fresh trace with its \<open>QUERY_START\<close> entry.\<close>

definition trace_enter :: "explorer \<Rightarrow> string \<Rightarrow> query_trace" where
  "trace_enter ex q =
     add_entry (ex_now ex) QUERY_START (''Starting query: '' @ take 100 q @ ''...'')
       (Some (QueryStart q (ex_file_path ex))) None None
       (new_trace (new_query_id ex) q (ex_now ex) (ex_file_path ex))"

text \<open>
  \<open>TraceContext.__exit__\<close> when no exception leaves the \<open>with\<close> block: the end of the
  query is logged if the trace holds an answer, otherwise only the duration is stored.
\<close>

definition trace_exit :: "explorer \<Rightarrow> query_trace \<Rightarrow> query_trace" where
  "trace_exit ex tr =
     (if truthy_str (answer tr) then
        add_entry (ex_now ex) QUERY_END ''Query completed successfully''
          (Some (AnswerLength (length (the (answer tr))))) (Some (ex_duration_ms ex)) None
          (tr\<lparr> total_duration_ms := Some (ex_duration_ms ex) \<rparr>)
      else tr\<lparr> total_duration_ms := Some (ex_duration_ms ex) \<rparr>)"

text \<open>The body of the \<open>try\<close> block of \<open>query\<close>, up to the construction of the result.\<close>

definition plan_end_message :: "QueryPlan \<Rightarrow> string" where
  "plan_end_message plan =
     ''Plan created: '' @ intent_value (intent plan) @ '', ''
       @ (if truthy_int (estimated_chunks plan) then str_int (the (estimated_chunks plan)) else ''?'')
       @ '' chunks''"

definition answer_phase ::
  "'w components \<Rightarrow> QueryPlan \<Rightarrow> ExecutionResult \<Rightarrow> ('w, string \<times> ExecutionResult) phase" where
  "answer_phase cmp plan exec_result =
     (if aggregated_content exec_result \<noteq> [] then
        return_phase (aggregated_content exec_result, exec_result)
      else
        bind_phase (aggregator_aggregate cmp (chunk_results exec_result) plan) (\<lambda>agg.
          return_phase (agg_content agg,
            exec_result\<lparr> er_total_tokens := er_total_tokens exec_result + agg_tokens_used agg \<rparr>)))"

definition verification_phase ::
  "'w components \<Rightarrow> string \<Rightarrow> QueryPlan \<Rightarrow> string \<Rightarrow> ExecutionResult \<Rightarrow>
   ('w, CitationReport option \<times> VerificationResult option) phase" where
  "verification_phase cmp q plan ans exec_result =
     (if intent plan = EXHAUSTIVE_EXTRACT then
        bind_phase (extract_and_verify_citations cmp q ans (chunk_results exec_result))
          (\<lambda>(rep, v). return_phase (Some rep, Some v))
      else
        bind_phase (basic_verification cmp ans q) (\<lambda>v. return_phase (None, Some v)))"

definition query_body :: "'w components \<Rightarrow> explorer \<Rightarrow> string \<Rightarrow> ('w, QueryResult) phase" where
  "query_body cmp ex q =
     bind_phase (on_trace (add_entry (ex_now ex) PLAN_START ''Planning query execution'' None None None)) (\<lambda>_.
     bind_phase (planner_plan cmp q) (\<lambda>plan.
     bind_phase (on_trace (add_entry (ex_now ex) PLAN_END (plan_end_message plan)
                             (Some (PlanCreated plan)) None None)) (\<lambda>_.
     bind_phase (get_chunks cmp) (\<lambda>chunks.
     bind_phase (on_trace (add_entry (ex_now ex) INFO
                             (''Created '' @ str_int (int (length chunks)) @ '' chunks from data'')
                             None None None)) (\<lambda>_.
     bind_phase (executor_execute cmp chunks plan) (\<lambda>exec_result0.
     bind_phase (answer_phase cmp plan exec_result0) (\<lambda>(answer0, exec_result).
     bind_phase (verification_phase cmp q plan answer0 exec_result) (\<lambda>(rep, v).
     bind_phase (post_process_answer cmp answer0 q v) (\<lambda>answer1.
     bind_phase (on_trace (\<lambda>tr. tr\<lparr> answer := Some answer1 \<rparr>)) (\<lambda>_.
     return_phase
       \<lparr> qr_answer = answer1, qr_success = er_success exec_result, qr_query = q,
         qr_file_path = ex_file_path ex,
         qr_chunks_processed = er_chunks_processed exec_result,
         qr_chunks_filtered = er_chunks_filtered exec_result,
         qr_total_tokens = er_total_tokens exec_result,
         qr_duration_ms = ex_duration_ms ex, qr_trace = None,
         citation_report = rep, verification = v, qr_error = None \<rparr>))))))))))"

text \<open>
  The \<open>try\<close>/\<open>except Exception\<close> of \<open>query\<close> inside the trace context: the result, which
  refers to the trace as it is when the context is left, and the world.
\<close>

definition failed_result :: "explorer \<Rightarrow> string \<Rightarrow> string \<Rightarrow> QueryResult" where
  "failed_result ex q e =
     \<lparr> qr_answer = ''Query failed: '' @ e, qr_success = False, qr_query = q,
       qr_file_path = ex_file_path ex, qr_chunks_processed = 0, qr_chunks_filtered = 0,
       qr_total_tokens = 0, qr_duration_ms = 0, qr_trace = None,
       citation_report = None, verification = None, qr_error = Some e \<rparr>"

definition query_guarded :: "'w components \<Rightarrow> explorer \<Rightarrow> string \<Rightarrow> 'w \<Rightarrow> QueryResult \<times> 'w" where
  "query_guarded cmp ex q w =
     (case query_body cmp ex q (trace_enter ex q, w) of
        (Inr result, tr, w') \<Rightarrow> (result\<lparr> qr_trace := Some (trace_exit ex tr) \<rparr>, w')
      | (Inl e, tr, w') \<Rightarrow>
          ((failed_result ex q e)\<lparr> qr_trace := Some (trace_exit ex (log_error (ex_now ex) e None tr)) \<rparr>,
           w'))"

text \<open>
  \<open>JsonExplorer.query\<close>. \<open>Inl\<close> is an exception that leaves the call: the
  \<open>ValueError\<close> of an explorer without a loaded file, or a failure while saving the
  trace or the citation report, which happens after the guarded block.
\<close>

definition query ::
  "'w components \<Rightarrow> explorer \<Rightarrow> string \<Rightarrow> bool \<Rightarrow> string option \<Rightarrow> 'w \<Rightarrow> (string + QueryResult) \<times> 'w" where
  "query cmp ex q save_trace trace_dir w =
     (if \<not> loaded ex then (Inl ''No file loaded. Call load() first.'', w)
      else
        (let (result, w1) = query_guarded cmp ex q w in
         if save_trace then
           (let trace_output = (if truthy_str trace_dir then the trace_dir
                                else if truthy_str (trace_output_dir ex) then the (trace_output_dir ex)
                                else ''./traces'')
            in case trace_save cmp (the (qr_trace result)) trace_output w1 of
                 (Some e, w2) \<Rightarrow> (Inl e, w2)
               | (None, w2) \<Rightarrow>
                   (case citation_report result of
                      None \<Rightarrow> (Inr result, w2)
                    | Some rep \<Rightarrow>
                        (case save_citation_report cmp rep trace_output w2 of
                           (Some e, w3) \<Rightarrow> (Inl e, w3)
                         | (None, w3) \<Rightarrow> (Inr result, w3))))
         else (Inr result, w1)))"





chapter \<open>Properties\<close>

section \<open>Substring test\<close>

text \<open>The string test \<open>p in s\<close> of the model is the library's contiguous-sublist relation.\<close>

lemma startswith_prefix: "startswith s p \<longleftrightarrow> prefix p s"
  by (induction s p rule: startswith.induct) auto

lemma contains_sublist: "contains s p \<longleftrightarrow> sublist p s"
  by (induction s) (simp_all add: startswith_prefix sublist_Cons_right)

section \<open>Execution trace: running totals\<close>

lemma truthy_int_tokens: "(if truthy_int t then n + the t else n) = n + tokens_or_0 t"
  by (cases t) auto

lemma add_entry_entries:
  "entries (add_entry now ev msg dat dur toks tr) = entries tr @ [entry_of (now, ev, msg, dat, dur, toks)]"
  by (simp add: add_entry_def Let_def)

lemma add_entry_total_tokens:
  "total_tokens (add_entry now ev msg dat dur toks tr) = total_tokens tr + tokens_or_0 toks"
  by (cases toks) (simp_all add: add_entry_def Let_def)

lemma add_entry_total_llm_calls:
  "total_llm_calls (add_entry now ev msg dat dur toks tr) =
     total_llm_calls tr + (if ev = LLM_CALL_END then 1 else 0)"
  by (simp add: add_entry_def Let_def)

lemma add_entry_chunks_processed:
  "chunks_processed (add_entry now ev msg dat dur toks tr) =
     chunks_processed tr + (if ev = CHUNK_END then 1 else 0)"
  by (simp add: add_entry_def Let_def)

lemma add_entry_chunks_skipped:
  "chunks_skipped (add_entry now ev msg dat dur toks tr) =
     chunks_skipped tr + (if ev = CHUNK_SKIP then 1 else 0)"
  by (simp add: add_entry_def Let_def)

lemma add_entry_consistent:
  "totals_consistent tr \<Longrightarrow> totals_consistent (add_entry now ev msg dat dur toks tr)"
  by (simp add: totals_consistent_def count_events_def add_entry_entries add_entry_total_tokens
      add_entry_total_llm_calls add_entry_chunks_processed add_entry_chunks_skipped)

lemma new_trace_consistent: "totals_consistent (new_trace qid q started fp)"
  by (simp add: totals_consistent_def count_events_def new_trace_def)

lemma add_entries_consistent:
  "totals_consistent tr \<Longrightarrow> totals_consistent (add_entries cs tr)"
proof (induction cs arbitrary: tr)
  case Nil
  then show ?case by simp
next
  case (Cons c cs)
  obtain now ev msg dat dur toks where c: "c = (now, ev, msg, dat, dur, toks)"
    by (cases c) auto
  from Cons.prems have "totals_consistent (add_entry_call c tr)"
    unfolding c by (simp add: add_entry_consistent)
  then show ?case using Cons.IH by simp
qed

lemma add_entries_entries:
  "entries (add_entries cs tr) = entries tr @ map entry_of cs"
proof (induction cs arbitrary: tr)
  case Nil
  then show ?case by simp
next
  case (Cons c cs)
  obtain now ev msg dat dur toks where c: "c = (now, ev, msg, dat, dur, toks)"
    by (cases c) auto
  show ?case unfolding c using Cons.IH by (simp add: add_entry_entries)
qed

text \<open>
  Claim C9. Any sequence of \<open>add_entry\<close> calls, applied to a trace whose running totals
  agree with its entry list (as those of a freshly constructed trace do), leaves a
  trace whose totals again agree with the entry list: \<open>total_tokens\<close> is the sum of
  \<open>tokens_used\<close> over all entries with an absent value counted as 0,
  \<open>total_llm_calls\<close>, \<open>chunks_processed\<close> and \<open>chunks_skipped\<close> are the numbers of
  \<open>LLM_CALL_END\<close>, \<open>CHUNK_END\<close> and \<open>CHUNK_SKIP\<close> entries; and the entry list is the
  old one with the new entries appended in call order.
\<close>

theorem add_entry_totals_consistent:
  assumes "totals_consistent tr"
  shows "total_tokens (add_entries cs tr)
           = sum_list (map (\<lambda>e. tokens_or_0 (tokens_used e)) (entries (add_entries cs tr))) \<and>
         total_llm_calls (add_entries cs tr) = count_events LLM_CALL_END (entries (add_entries cs tr)) \<and>
         chunks_processed (add_entries cs tr) = count_events CHUNK_END (entries (add_entries cs tr)) \<and>
         chunks_skipped (add_entries cs tr) = count_events CHUNK_SKIP (entries (add_entries cs tr)) \<and>
         entries (add_entries cs tr) = entries tr @ map entry_of cs"
  using add_entries_consistent [OF assms, of cs] add_entries_entries [of cs tr]
  by (simp add: totals_consistent_def)

theorem add_entry_totals_consistent_witness:
  "totals_consistent (new_trace ''q1'' ''how many?'' ''t0'' None :: unit ExecutionTrace) \<and>
   total_tokens (add_entries
       [(''t1'', CHUNK_END, ''Chunk 0 processed'', None, None, Some 120),
        (''t2'', CHUNK_SKIP, ''Chunk 1 served from cache'', None, None, None),
        (''t3'', LLM_CALL_END, ''LLM responded'', None, None, Some 0)]
       (new_trace ''q1'' ''how many?'' ''t0'' None :: unit ExecutionTrace)) = 120 \<and>
   chunks_skipped (add_entries
       [(''t1'', CHUNK_END, ''Chunk 0 processed'', None, None, Some 120),
        (''t2'', CHUNK_SKIP, ''Chunk 1 served from cache'', None, None, None),
        (''t3'', LLM_CALL_END, ''LLM responded'', None, None, Some 0)]
       (new_trace ''q1'' ''how many?'' ''t0'' None :: unit ExecutionTrace)) = 1"
proof -
  let ?t = "new_trace ''q1'' ''how many?'' ''t0'' None :: unit ExecutionTrace"
  let ?cs = "[(''t1'', CHUNK_END, ''Chunk 0 processed'', None, None, Some 120),
        (''t2'', CHUNK_SKIP, ''Chunk 1 served from cache'', None, None, None),
        (''t3'', LLM_CALL_END, ''LLM responded'', None, None, Some 0)]
        :: unit entry_call list"
  have c: "totals_consistent ?t" by (rule new_trace_consistent)
  have e: "entries ?t = []" by (simp add: new_trace_def)
  from add_entry_totals_consistent [OF c, of ?cs]
  have "total_tokens (add_entries ?cs ?t) = 120" and "chunks_skipped (add_entries ?cs ?t) = 1"
    unfolding e by (simp_all add: count_events_def)
  with c show ?thesis by simp
qed

section \<open>Intent detection\<close>

lemma detect_intent_exhaustive_first:
  "any_in exhaustive_indicators (lower q) \<or> list_ex (\<lambda>p. re_search p (lower q)) opinion_patterns
     \<Longrightarrow> detect_intent q = EXHAUSTIVE_EXTRACT"
  by (auto simp: detect_intent_def Let_def)

lemma detect_intent_people_saying:
  "detect_intent ''What are people saying about pricing?'' = EXHAUSTIVE_EXTRACT"
  by code_simp

lemma detect_intent_how_many:
  "detect_intent ''How many messages mention pricing?'' = COUNT"
  by code_simp

lemma detect_intent_compare:
  "detect_intent ''Compare pricing feedback between channel A and channel B'' = COMPARE"
  by code_simp

lemma detect_intent_summarize:
  "detect_intent ''Summarize the discussion'' = SUMMARIZE"
  by code_simp

text \<open>
  Claim C6. Intent detection classifies "What are people saying about pricing?" as
  EXHAUSTIVE_EXTRACT, "How many messages mention pricing?" as COUNT, "Compare pricing
  feedback between channel A and channel B" as COMPARE and "Summarize the discussion" as
  SUMMARIZE; and the match is prioritized: whenever the lower-cased query contains an
  exhaustive indicator or matches an opinion pattern, the intent is EXHAUSTIVE_EXTRACT
  whatever other keyword sets it also contains.
\<close>

theorem detect_intent_examples:
  "detect_intent ''What are people saying about pricing?'' = EXHAUSTIVE_EXTRACT \<and>
   detect_intent ''How many messages mention pricing?'' = COUNT \<and>
   detect_intent ''Compare pricing feedback between channel A and channel B'' = COMPARE \<and>
   detect_intent ''Summarize the discussion'' = SUMMARIZE \<and>
   (\<forall>q. any_in exhaustive_indicators (lower q)
          \<or> list_ex (\<lambda>p. re_search p (lower q)) opinion_patterns
        \<longrightarrow> detect_intent q = EXHAUSTIVE_EXTRACT)"
  using detect_intent_people_saying detect_intent_how_many detect_intent_compare
    detect_intent_summarize detect_intent_exhaustive_first
  by blast

theorem detect_intent_examples_witness:
  "any_in exhaustive_indicators (lower ''Count every mention of pricing'') \<and>
   any_in count_indicators (lower ''Count every mention of pricing'') \<and>
   detect_intent ''Count every mention of pricing'' = EXHAUSTIVE_EXTRACT"
proof -
  have h: "any_in exhaustive_indicators (lower ''Count every mention of pricing'')"
    by code_simp
  have c: "any_in count_indicators (lower ''Count every mention of pricing'')"
    by code_simp
  from detect_intent_examples h
  have "detect_intent ''Count every mention of pricing'' = EXHAUSTIVE_EXTRACT"
    by blast
  with h c show ?thesis by simp
qed

section \<open>Size-bounded chunking\<close>

lemma size_loop_acc:
  "size_loop ch irs chunks cur sz start = chunks @ size_loop ch irs [] cur sz start"
proof (induction irs arbitrary: chunks cur sz start)
  case Nil
  then show ?case by simp
next
  case (Cons ir irs)
  obtain i r where ir: "ir = (i, r)" by (cases ir)
  show ?case
    unfolding ir
    using Cons.IH [of "chunks @ [(cur, start)]"] Cons.IH [of "[(cur, start)]"] Cons.IH [of chunks]
    by (simp add: Let_def)
qed

lemma size_loop_concat:
  "concat (map fst (size_loop ch irs [] cur sz start)) = cur @ map snd irs"
proof (induction irs arbitrary: cur sz start)
  case Nil
  then show ?case by simp
next
  case (Cons ir irs)
  obtain i r where ir: "ir = (i, r)" by (cases ir)
  show ?case
    unfolding ir
    using Cons.IH size_loop_acc [of ch irs "[(cur, start)]"]
    by (simp add: Let_def)
qed

lemma size_loop_starts:
  "int k = start + int (length cur) \<Longrightarrow>
   segs_from start (size_loop ch (enumerate k xs) [] cur sz start)"
proof (induction xs arbitrary: k cur sz start)
  case Nil
  then show ?case by simp
next
  case (Cons x xs)
  have a: "segs_from (int k) (size_loop ch (enumerate (Suc k) xs) [] [x] s' (int k))" for s'
    by (rule Cons.IH) simp
  have b: "segs_from start (size_loop ch (enumerate (Suc k) xs) [] (cur @ [x]) s' start)" for s'
    by (rule Cons.IH) (use Cons.prems in simp)
  show ?case
    using a b Cons.prems size_loop_acc [of ch "enumerate (Suc k) xs" "[(cur, start)]"]
    by (simp add: Let_def)
qed

lemma size_loop_sizes:
  "sz = seg_size ch cur \<Longrightarrow> cur = [] \<or> seg_size ch cur \<le> max_chunk_size ch \<or> length cur = 1 \<Longrightarrow>
   (rs, s) \<in> set (size_loop ch irs [] cur sz start) \<Longrightarrow>
   seg_size ch rs \<le> max_chunk_size ch \<or> length rs = 1"
proof (induction irs arbitrary: cur sz start)
  case Nil
  then show ?case by (auto split: if_splits)
next
  case (Cons ir irs)
  obtain i r where ir: "ir = (i, r)" by (cases ir)
  show ?case
  proof (cases "sz + rec_size ch r > max_chunk_size ch \<and> cur \<noteq> []")
    case True
    with Cons.prems(3) have "(rs, s) \<in> set ((cur, start) # size_loop ch irs [] [r] (rec_size ch r) (int i))"
      unfolding ir using size_loop_acc [of ch irs "[(cur, start)]"]
      by (simp add: Let_def rec_size_def)
    then consider "(rs, s) = (cur, start)" | "(rs, s) \<in> set (size_loop ch irs [] [r] (rec_size ch r) (int i))"
      by auto
    then show ?thesis
    proof cases
      case 1
      with True Cons.prems(2) show ?thesis by auto
    next
      case 2
      show ?thesis
        by (rule Cons.IH [OF _ _ 2]) (simp_all add: seg_size_def)
    qed
  next
    case False
    with Cons.prems(3) have m: "(rs, s) \<in> set (size_loop ch irs [] (cur @ [r]) (sz + rec_size ch r) start)"
      unfolding ir by (auto simp: Let_def rec_size_def)
    show ?thesis
    proof (rule Cons.IH [OF _ _ m])
      show "sz + rec_size ch r = seg_size ch (cur @ [r])"
        using Cons.prems(1) by (simp add: seg_size_def)
      show "cur @ [r] = [] \<or> seg_size ch (cur @ [r]) \<le> max_chunk_size ch \<or> length (cur @ [r]) = 1"
        using False Cons.prems(1) by (cases "cur = []") (auto simp: seg_size_def)
    qed
  qed
qed


lemma segs_cover:
  "segs_from b segs \<Longrightarrow>
   concat (map (\<lambda>(rs, s). [s .. s + int (length rs) - 1]) segs)
     = [b .. b + int (length (concat (map fst segs))) - 1]"
proof (induction segs arbitrary: b)
  case Nil
  then show ?case by simp
next
  case (Cons seg segs)
  obtain rs s where seg: "seg = (rs, s)" by (cases seg)
  from Cons.prems have s: "s = b" and ne: "rs \<noteq> []"
    and rest: "segs_from (b + int (length rs)) segs"
    by (simp_all add: seg)
  define m where "m = int (length rs)"
  define L where "L = int (length (concat (map fst segs)))"
  have m: "0 < m" and L: "0 \<le> L" using ne by (simp_all add: m_def L_def)
  have split: "[b .. b + m + L - 1] = [b .. b + m - 1] @ [b + m .. b + m + L - 1]"
  proof (cases "L = 0")
    case True
    then show ?thesis by simp
  next
    case False
    with L m show ?thesis using upto_split1 [of b "b + m" "b + m + L - 1"] by simp
  qed
  have "concat (map (\<lambda>(rs, s). [s .. s + int (length rs) - 1]) (seg # segs))
          = [b .. b + m - 1] @ [b + m .. b + m + L - 1]"
    using Cons.IH [OF rest] by (simp add: seg s m_def L_def)
  also have "\<dots> = [b .. b + m + L - 1]" using split by simp
  also have "b + m + L = b + int (length (concat (map fst (seg # segs))))"
    by (simp add: seg m_def L_def)
  finally show ?case .
qed

lemma segs_take:
  "segs_from b segs \<Longrightarrow> 0 \<le> b \<Longrightarrow> drop (nat b) recs = concat (map fst segs) \<Longrightarrow>
   (rs, s) \<in> set segs \<Longrightarrow> 0 \<le> s \<and> rs \<noteq> [] \<and> rs = take (length rs) (drop (nat s) recs)"
proof (induction segs arbitrary: b)
  case Nil
  then show ?case by simp
next
  case (Cons seg segs)
  obtain rs0 s0 where seg: "seg = (rs0, s0)" by (cases seg)
  from Cons.prems(1) have s0: "s0 = b" and ne: "rs0 \<noteq> []"
    and rest: "segs_from (b + int (length rs0)) segs"
    by (simp_all add: seg)
  from Cons.prems(3) have d: "drop (nat b) recs = rs0 @ concat (map fst segs)"
    by (simp add: seg)
  from Cons.prems(4) consider "rs = rs0" "s = s0" | "(rs, s) \<in> set segs"
    by (auto simp: seg)
  then show ?case
  proof cases
    case 1
    then show ?thesis using d s0 ne Cons.prems(2) by simp
  next
    case 2
    have "drop (nat (b + int (length rs0))) recs = drop (length rs0) (drop (nat b) recs)"
      using Cons.prems(2) by (simp add: nat_add_distrib add.commute)
    also have "\<dots> = concat (map fst segs)" by (simp add: d)
    finally show ?thesis
      using Cons.IH [OF rest _ _ 2] Cons.prems(2) by simp
  qed
qed

lemma length_join:
  "xs \<noteq> [] \<Longrightarrow>
   int (length (join sep xs)) = sum_list (map (\<lambda>x. int (length x)) xs) + int (length sep) * (int (length xs) - 1)"
  by (induction sep xs rule: join.induct) (simp_all add: algebra_simps)

lemma map_enumerate_snd: "map (\<lambda>(i, x). g x) (enumerate n xs) = map g xs"
  by (induction xs arbitrary: n) simp_all

lemma chunk_by_size_covered:
  "covered_indices (chunk_by_size ch recs) = map int [0 ..< length recs]"
proof -
  let ?segs = "size_loop ch (enumerate 0 recs) [] [] 0 0"
  have sf: "segs_from 0 ?segs" by (rule size_loop_starts) simp
  have cc: "concat (map fst ?segs) = recs"
    by (simp add: size_loop_concat)
  have "covered_indices (chunk_by_size ch recs)
          = concat (map (\<lambda>(idx, (rs, s)). [s .. s + int (length rs) - 1]) (enumerate 0 ?segs))"
    by (simp add: covered_indices_def chunk_by_size_def Let_def chunk_indices_def create_chunk_def
        comp_def case_prod_unfold)
  also have "\<dots> = concat (map (\<lambda>(rs, s). [s .. s + int (length rs) - 1]) ?segs)"
    using map_enumerate_snd [of "\<lambda>(rs, s). [s .. s + int (length rs) - 1]" 0 ?segs] by simp
  also have "\<dots> = [0 .. int (length recs) - 1]"
    using segs_cover [OF sf] by (simp add: cc)
  also have "\<dots> = map int [0 ..< length recs]"
    by (induction recs rule: rev_induct) (simp_all add: upto_rec2)
  finally show ?thesis .
qed

lemma chunk_by_size_elem:
  assumes "c \<in> set (chunk_by_size ch recs)"
  shows "\<exists>idx rs s. (rs, s) \<in> set (size_loop ch (enumerate 0 recs) [] [] 0 0) \<and>
           c = create_chunk ch rs idx (int (length (size_loop ch (enumerate 0 recs) [] [] 0 0))) s None None"
proof -
  let ?segs = "size_loop ch (enumerate 0 recs) [] [] 0 0"
  from assms obtain p where p: "p \<in> set (enumerate 0 ?segs)"
    and c: "c = (case p of (idx, (rs, s)) \<Rightarrow> create_chunk ch rs (int idx) (int (length ?segs)) s None None)"
    by (auto simp: chunk_by_size_def Let_def)
  obtain i rs s where pe: "p = (i, (rs, s))" by (cases p) auto
  from p have "i < length ?segs" and "?segs ! i = (rs, s)"
    unfolding pe by (auto simp: in_set_enumerate_eq)
  then have "(rs, s) \<in> set ?segs" using nth_mem [of i ?segs] by simp
  with c show ?thesis unfolding pe by auto
qed

lemma seg_size_nonneg: "0 \<le> seg_size ch rs"
  by (induction rs) (simp_all add: seg_size_def rec_size_def)

lemma rec_size_le_seg_size: "r \<in> set rs \<Longrightarrow> rec_size ch r \<le> seg_size ch rs"
proof (induction rs)
  case Nil
  then show ?case by simp
next
  case (Cons x rs)
  have "0 \<le> rec_size ch x" and "0 \<le> seg_size ch rs"
    by (simp_all add: rec_size_def seg_size_nonneg)
  with Cons show ?case by (auto simp: seg_size_def)
qed

lemma create_chunk_char_count:
  "rs \<noteq> [] \<Longrightarrow>
   char_count (create_chunk ch rs idx tot s gk gv) = seg_size ch rs + 2 * (int (length rs) - 1)"
  using length_join [of "map (format_record ch) rs" "''\<newline>\<newline>''"]
  by (simp add: create_chunk_def Let_def seg_size_def rec_size_def [abs_def] comp_def)

text \<open>
  What the size-bounded strategy does guarantee. The chunks address every record index
  exactly once and hold the records of their index range unchanged; a record whose
  formatted text alone is longer than \<open>max_chunk_size\<close> is the only record of its chunk;
  and in every other chunk the lengths of the formatted records sum to at most
  \<open>max_chunk_size\<close>. The loop bounds this sum only: the text of the chunk joins the
  records with a two-character separator, which the sum leaves out, so \<open>char_count\<close> is
  bounded by \<open>max_chunk_size + 2 * (record_count - 1)\<close> and not by \<open>max_chunk_size\<close>.
\<close>

lemma chunk_by_size_oversized:
  "covered_indices (chunk_by_size ch recs) = map int [0 ..< length recs] \<and>
   (\<forall>c \<in> set (chunk_by_size ch recs).
      records c = take (nat (record_count c)) (drop (nat (start_record_index c)) recs) \<and>
      records c \<noteq> [] \<and>
      text_content c = join ''\<newline>\<newline>'' (map (format_record ch) (records c)) \<and>
      (\<forall>r \<in> set (records c). max_chunk_size ch < rec_size ch r \<longrightarrow> records c = [r]) \<and>
      ((seg_size ch (records c) \<le> max_chunk_size ch \<and>
        char_count c \<le> max_chunk_size ch + 2 * (record_count c - 1))
       \<or> (\<exists>r. records c = [r] \<and> max_chunk_size ch < rec_size ch r)))"
proof (rule conjI)
  show "covered_indices (chunk_by_size ch recs) = map int [0 ..< length recs]"
    by (rule chunk_by_size_covered)
next
  show "\<forall>c \<in> set (chunk_by_size ch recs).
      records c = take (nat (record_count c)) (drop (nat (start_record_index c)) recs) \<and>
      records c \<noteq> [] \<and>
      text_content c = join ''\<newline>\<newline>'' (map (format_record ch) (records c)) \<and>
      (\<forall>r \<in> set (records c). max_chunk_size ch < rec_size ch r \<longrightarrow> records c = [r]) \<and>
      ((seg_size ch (records c) \<le> max_chunk_size ch \<and>
        char_count c \<le> max_chunk_size ch + 2 * (record_count c - 1))
       \<or> (\<exists>r. records c = [r] \<and> max_chunk_size ch < rec_size ch r))"
  proof (rule ballI, intro conjI)
  fix c assume "c \<in> set (chunk_by_size ch recs)"
  let ?segs = "size_loop ch (enumerate 0 recs) [] [] 0 0"
  from chunk_by_size_elem [OF \<open>c \<in> set (chunk_by_size ch recs)\<close>]
  obtain idx rs s where m: "(rs, s) \<in> set ?segs"
    and c: "c = create_chunk ch rs idx (int (length ?segs)) s None None"
    by blast
  have sf: "segs_from 0 ?segs" by (rule size_loop_starts) simp
  have cc: "drop (nat 0) recs = concat (map fst ?segs)"
    by (simp add: size_loop_concat)
  from segs_take [OF sf _ cc m]
  have s0: "0 \<le> s" and ne: "rs \<noteq> []" and tk: "rs = take (length rs) (drop (nat s) recs)"
    by simp_all
  have sz: "seg_size ch rs \<le> max_chunk_size ch \<or> length rs = 1"
    by (rule size_loop_sizes [OF _ _ m]) (simp_all add: seg_size_def)
  have recs_c: "records c = rs" and rc: "record_count c = int (length rs)"
    and st: "start_record_index c = s"
    by (simp_all add: c create_chunk_def Let_def)
  show "records c = take (nat (record_count c)) (drop (nat (start_record_index c)) recs)"
    using tk by (simp add: recs_c rc st)
  show "records c \<noteq> []" using ne by (simp add: recs_c)
  show "text_content c = join ''\<newline>\<newline>'' (map (format_record ch) (records c))"
    by (simp add: c create_chunk_def Let_def)
  show "\<forall>r \<in> set (records c). max_chunk_size ch < rec_size ch r \<longrightarrow> records c = [r]"
  proof (intro ballI impI)
    fix r assume r: "r \<in> set (records c)" and big: "max_chunk_size ch < rec_size ch r"
    from r have "rec_size ch r \<le> seg_size ch rs"
      by (simp add: recs_c rec_size_le_seg_size)
    with big sz have "length rs = 1" by linarith
    with r show "records c = [r]"
      by (cases rs) (simp_all add: recs_c)
  qed
  show "(seg_size ch (records c) \<le> max_chunk_size ch \<and>
         char_count c \<le> max_chunk_size ch + 2 * (record_count c - 1))
        \<or> (\<exists>r. records c = [r] \<and> max_chunk_size ch < rec_size ch r)"
  proof (cases "seg_size ch rs \<le> max_chunk_size ch")
    case True
    have "char_count c = seg_size ch rs + 2 * (int (length rs) - 1)"
      unfolding c by (rule create_chunk_char_count [OF ne])
    with True show ?thesis by (simp add: recs_c rc)
  next
    case False
    with sz have "length rs = 1" by simp
    then obtain r where "rs = [r]" by (cases rs) simp_all
    with False show ?thesis by (simp add: recs_c seg_size_def)
  qed
  qed
qed

text \<open>
  With a bound of 10 characters, a record of 16 characters between two short ones is the
  only record of the second chunk.
\<close>

lemma chunk_by_size_oversized_example:
  "chunk_by_size (content_chunker 10 SIZE_BASED)
       [content_record ''aaaaa'', content_record ''0123456789abcdef'', content_record ''b''] ! 1
     \<in> set (chunk_by_size (content_chunker 10 SIZE_BASED)
       [content_record ''aaaaa'', content_record ''0123456789abcdef'', content_record ''b'']) \<and>
   max_chunk_size (content_chunker 10 SIZE_BASED)
     < rec_size (content_chunker 10 SIZE_BASED) (content_record ''0123456789abcdef'') \<and>
   records (chunk_by_size (content_chunker 10 SIZE_BASED)
       [content_record ''aaaaa'', content_record ''0123456789abcdef'', content_record ''b''] ! 1)
     = [content_record ''0123456789abcdef'']"
proof -
  let ?ch = "content_chunker 10 SIZE_BASED"
  let ?recs = "[content_record ''aaaaa'', content_record ''0123456789abcdef'', content_record ''b'']"
  let ?r = "content_record ''0123456789abcdef''"
  have len: "1 < length (chunk_by_size ?ch ?recs)" by code_simp
  have mem: "chunk_by_size ?ch ?recs ! 1 \<in> set (chunk_by_size ?ch ?recs)"
    using nth_mem [OF len] .
  have r: "?r \<in> set (records (chunk_by_size ?ch ?recs ! 1))" by code_simp
  have big: "max_chunk_size ?ch < rec_size ?ch ?r" by code_simp
  from chunk_by_size_oversized [of ?ch ?recs] mem r big
  have "records (chunk_by_size ?ch ?recs ! 1) = [?r]" by blast
  with mem big show ?thesis by simp
qed

text \<open>
  Claim C7 fails in its last part: a chunk none of whose records exceeds the bound can
  itself exceed it. \<open>_chunk_by_size\<close> compares the running sum of the formatted record
  lengths with \<open>max_chunk_size\<close>, while \<open>_create_chunk\<close> joins the records with a
  two-character separator and reports the length of the joined text as \<open>char_count\<close>.
  With a bound of 1000 characters, two records of 500 characters each are put in one chunk
  whose text has 1002 characters, against the docstring \<^verbatim>\<open>Chunk by character size limit\<close>
  and the configuration's \<^verbatim>\<open>Maximum characters per chunk sent to LLM\<close>. The first part of
  the claim holds (lemma above): an oversized record is alone in its chunk and unchanged.
\<close>

theorem chunk_by_size_exceeds_bound:
  "max_chunk_size (content_chunker 1000 SIZE_BASED) = 1000 \<and>
   rec_size (content_chunker 1000 SIZE_BASED) (content_record (replicate 500 CHR ''a'')) = 500 \<and>
   rec_size (content_chunker 1000 SIZE_BASED) (content_record (replicate 500 CHR ''b'')) = 500 \<and>
   map (\<lambda>c. (records c, char_count c))
     (chunk_by_size (content_chunker 1000 SIZE_BASED)
        [content_record (replicate 500 CHR ''a''), content_record (replicate 500 CHR ''b'')])
     = [([content_record (replicate 500 CHR ''a''), content_record (replicate 500 CHR ''b'')], 1002)]"
  by code_simp

section \<open>Coverage of the record indices\<close>

lemma length_py_slice:
  "0 \<le> i \<Longrightarrow> i \<le> j \<Longrightarrow> j \<le> int (length xs) \<Longrightarrow> length (py_slice xs i j) = nat (j - i)"
  by (auto simp: py_slice_def Let_def min_def max_def)

lemma covered_indices_append: "covered_indices (xs @ ys) = covered_indices xs @ covered_indices ys"
  by (simp add: covered_indices_def)

lemma records_loop_covers:
  assumes rpc: "0 < records_per_chunk ch" and ov: "overlap ch \<le> 0"
  shows "0 \<le> start \<Longrightarrow> start \<le> int (length recs) \<Longrightarrow>
         \<exists>cs. records_loop ch recs tot start idx acc = Some (acc @ cs) \<and>
              covered_indices cs = [start .. int (length recs) - 1]"
proof (induction "nat (int (length recs) - start)" arbitrary: start idx acc rule: less_induct)
  case less
  let ?n = "int (length recs)"
  show ?case
  proof (cases "start < ?n")
    case False
    with less.prems have "start = ?n" by simp
    then show ?thesis
      by (subst records_loop.simps) (simp add: covered_indices_def)
  next
    case True
    define e where "e = records_end ch recs start"
    have e: "start < e" "e \<le> ?n"
      using True rpc by (simp_all add: e_def records_end_def)
    have nxt: "records_next ch recs start = e"
      using ov by (simp add: records_next_def e_def)
    define c where "c = create_chunk ch (py_slice recs start e) idx tot start None None"
    have len: "length (py_slice recs start e) = nat (e - start)"
      using less.prems e by (simp add: length_py_slice)
    have cov_c: "chunk_indices c = [start .. e - 1]"
      using e by (simp add: c_def chunk_indices_def create_chunk_def Let_def len)
    from less.hyps [of e "idx + 1" "acc @ [c]"] e less.prems
    obtain cs where cs: "records_loop ch recs tot e (idx + 1) (acc @ [c]) = Some ((acc @ [c]) @ cs)"
      and cov: "covered_indices cs = [e .. ?n - 1]"
      by auto
    have "records_loop ch recs tot start idx acc = Some (acc @ (c # cs))"
      using True cs by (subst records_loop.simps) (simp add: nxt c_def e_def)
    moreover have "covered_indices (c # cs) = [start .. ?n - 1]"
      using cov cov_c e upto_split1 [of start e "?n - 1"]
      by (cases "e = ?n") (simp_all add: covered_indices_def)
    ultimately show ?thesis by blast
  qed
qed

lemma upto_eq_map_int: "[0 .. int n - 1] = map int [0 ..< n]"
  by (induction n) (simp_all add: upto_rec2)

lemma chunk_by_records_covered:
  assumes "0 < records_per_chunk ch" and "overlap ch \<le> 0"
  shows "\<exists>cs. chunk_by_records ch recs = Some (Inr cs) \<and>
              covered_indices cs = map int [0 ..< length recs]"
  using records_loop_covers [OF assms, of 0 recs
      "(int (length recs) + records_per_chunk ch - 1) div records_per_chunk ch" 0 "[]"] assms(1)
  by (auto simp: chunk_by_records_def upto_eq_map_int)

text \<open>
  Claim C2 fails on the time-bucketed strategy (and, below, on the field-grouped one): every
  day's chunk is created with start index 0, so two records on different days give two
  chunks that both address record index 0, and index 1 is addressed by none. The
  fixed-record-count strategy (lemma above) and the size-bounded strategy cover every index
  once.
\<close>

theorem chunk_by_time_ranges_collide:
  "map_option (map_sum id (map (\<lambda>c. (group_value c, start_record_index c, end_record_index c))))
     (chunk_array (content_chunker 1000 TIME_BASED)
        [[(''ts'', ''2024-01-01T09:00:00''), (''content'', ''hello'')],
         [(''ts'', ''2024-01-02T10:00:00''), (''content'', ''world'')]])
     = Some (Inr [(Some ''2024-01-01'', 0, 0), (Some ''2024-01-02'', 0, 0)]) \<and>
   map_option (map_sum id covered_indices)
     (chunk_array (content_chunker 1000 TIME_BASED)
        [[(''ts'', ''2024-01-01T09:00:00''), (''content'', ''hello'')],
         [(''ts'', ''2024-01-02T10:00:00''), (''content'', ''world'')]])
     = Some (Inr [0, 0])"
  by code_simp

lemma chunk_by_field_ranges_collide:
  "map_option (map_sum id (map (\<lambda>c. (group_value c, start_record_index c, end_record_index c))))
     (chunk_array (content_chunker 1000 FIELD_BASED)
        [[(''channel'', ''general''), (''content'', ''hello'')],
         [(''channel'', ''random''), (''content'', ''world'')]])
     = Some (Inr [(Some ''general'', 0, 0), (Some ''random'', 0, 0)])"
  by code_simp

section \<open>Citation references\<close>

lemma finding_citations_record_index:
  "map record_index (finding_citations re response ci fp ms k) = map (\<lambda>i. k + int i) [0 ..< length ms]"
proof (induction ms arbitrary: k)
  case Nil
  then show ?case by simp
next
  case (Cons m ms)
  have "map (\<lambda>i. k + int i) [0 ..< length (m # ms)]
          = k # map (\<lambda>i. k + 1 + int i) [0 ..< length ms]"
    by (simp add: upt_rec [of 0] map_Suc_upt [symmetric] del: upt_Suc)
  then show ?case
    using Cons.IH [of "k + 1"]
    by (simp add: finding_citation_def mk_citation_def Let_def case_prod_unfold del: upt_Suc)
qed

lemma extract_record_index_ordinal:
  "finditer_findings re response \<noteq> [] \<Longrightarrow>
   map record_index (extract_from_response re response ci fp)
     = map int [0 ..< length (finditer_findings re response)]"
  using finding_citations_record_index [of re response ci fp "finditer_findings re response" 0]
  by (cases "finditer_findings re response") (simp_all add: extract_from_response_def Let_def)

text \<open>
  Claim C1 fails: the record index of an extracted citation is the position of its finding
  in the response. A response whose only finding quotes the third record of chunk 0 yields
  the reference id \<open>0.0\<close>, which addresses the first record; verification against the
  records then reports that the quote is not in the addressed record.
\<close>

theorem extract_reference_is_finding_position:
  "map (\<lambda>c. (quote c, reference_id c)) (extract_from_response pricing_engine pricing_response 0 None)
     = [(''the pro plan is too expensive'', ''0.0'')] \<and>
   get_field (pricing_records ! 2) ''content'' [] = ''the pro plan is too expensive'' \<and>
   get_field (pricing_records ! 0) ''content'' [] = ''hello everyone'' \<and>
   verification_issues (fst (verify (\<lambda>r. [])
       (add_citation (new_report ''pricing'' None ''now'')
          (hd (extract_from_response pricing_engine pricing_response 0 None)))
       pricing_records ''content''))
     = [''Ref 0.0: Quote not found in record'']"
  by code_simp

section \<open>Citation verification\<close>

lemma verify_keeps_citations:
  "citations (fst (verify py_str rep dat content_field)) = citations rep"
  by (simp add: verify_def Let_def)

lemma issues_length:
  "length (concat (map (\<lambda>out. case out of None \<Rightarrow> [] | Some i \<Rightarrow> [i]) (map f cs)))
     = length (filter (\<lambda>c. f c \<noteq> None) cs)"
  by (induction cs) (auto split: option.splits)

lemma verify_issue_count:
  "length (verification_issues (fst (verify py_str rep dat content_field)))
     = length (filter (\<lambda>c. verify_citation py_str dat content_field c \<noteq> None) (citations rep))"
  using issues_length [of "verify_citation py_str dat content_field" "citations rep"]
  by (simp add: verify_def Let_def)

text \<open>
  Claim C8 fails at exactly 50 per cent: the test in \<open>verify\<close> is \<open>overlap > 0.5\<close>. A quote
  of two words of which one occurs in the addressed record has overlap one half, is not
  counted as verified and is listed as an issue; the citation itself stays in the report.
\<close>

theorem verify_half_overlap_is_issue:
  "word_overlap ''hello world'' ''hello there'' = 1 / 2 \<and>
   snd (verify (\<lambda>r. [])
       (add_citation (new_report ''q'' None ''now'')
          (mk_citation ''hello world'' None None None 0 0 None NEUTRAL None))
       [[(''content'', ''hello there'')]] ''content'') = False \<and>
   verification_issues (fst (verify (\<lambda>r. [])
       (add_citation (new_report ''q'' None ''now'')
          (mk_citation ''hello world'' None None None 0 0 None NEUTRAL None))
       [[(''content'', ''hello there'')]] ''content''))
     = [''Ref 0.0: Quote not found in record''] \<and>
   map quote (citations (fst (verify (\<lambda>r. [])
       (add_citation (new_report ''q'' None ''now'')
          (mk_citation ''hello world'' None None None 0 0 None NEUTRAL None))
       [[(''content'', ''hello there'')]] ''content''))) = [''hello world'']"
  by code_simp

section \<open>Result cache\<close>

lemma cache_key_depends:
  "index c1 = index c2 \<Longrightarrow> take 1000 (text_content c1) = take 1000 (text_content c2)
     \<Longrightarrow> cache_key env c1 q = cache_key env c2 q"
  by (simp add: cache_key_def)

lemma trace_add_cache [simp]: "cache (trace_add env ev msg dat dur toks st) = cache st"
  by (simp add: trace_add_def)

lemma trace_add_tokens [simp]:
  "exec_tokens_used (trace_add env ev msg dat dur toks st) = exec_tokens_used st"
  by (simp add: trace_add_def)

lemma trace_add_llm [simp]: "llm_state (trace_add env ev msg dat dur toks st) = llm_state st"
  by (simp add: trace_add_def)





section \<open>Token budget\<close>

lemma process_chunk_tokens:
  assumes b: "llm_bounded env M" and run: "process_chunk env cfg plan c st = (r, st')"
  shows "exec_tokens_used st \<le> exec_tokens_used st' \<and> exec_tokens_used st' \<le> exec_tokens_used st + M
         \<and> \<not> was_filtered r \<and> cr_chunk_index r = index c"
proof (cases "cache_enabled cfg \<and> cache st (cache_key env c (plan_query plan)) \<noteq> None")
  case True
  with run b show ?thesis
    by (auto simp: process_chunk_def Let_def llm_bounded_def)
next
  case False
  let ?st1 = "trace_add env CHUNK_START
                     (''Processing chunk '' @ str_int (index c) @ '' ('' @ str_int (record_count c)
                        @ '' records)'')
                     (Some (ChunkData (to_dict c))) None None st"
  let ?prompt = "chunk_prompt plan @ ''\<newline>\<newline>---\<newline>\<newline>'' @ to_llm_context c"
  obtain out l' where llm: "llm_complete env (llm_state ?st1) ?prompt = (out, l')"
    by (cases "llm_complete env (llm_state ?st1) ?prompt")
  show ?thesis
  proof (cases out)
    case (Inl e)
    with run False llm b show ?thesis
      by (auto simp: process_chunk_def Let_def llm_bounded_def)
  next
    case (Inr p)
    obtain reply tokens where p: "p = (reply, tokens)" by (cases p)
    from b have "case fst (llm_complete env (llm_state ?st1) ?prompt) of Inl e \<Rightarrow> True
                  | Inr (t, n) \<Rightarrow> 0 \<le> n \<and> n \<le> M"
      unfolding llm_bounded_def by blast
    then have "0 \<le> tokens \<and> tokens \<le> M" unfolding llm Inr p by simp
    with run False llm Inr p show ?thesis
      by (auto simp: process_chunk_def Let_def split: if_splits)
  qed
qed

lemma process_sequential_exhausted:
  "budget_reached cfg st \<Longrightarrow> process_sequential env cfg plan cs st = (map budget_result cs, st)"
  by (induction cs) simp_all

lemma process_sequential_prefix:
  assumes b: "llm_bounded env M" and bud: "max_tokens_budget cfg = Some B" and nz: "B \<noteq> 0"
  shows "\<exists>k \<le> length cs.
           fst (process_sequential env cfg plan cs st)
             = fst (process_each env cfg plan (take k cs) st) @ map budget_result (drop k cs) \<and>
           snd (process_sequential env cfg plan cs st) = snd (process_each env cfg plan (take k cs) st) \<and>
           (k < length cs \<longrightarrow> B \<le> exec_tokens_used (snd (process_sequential env cfg plan cs st))) \<and>
           (exec_tokens_used st < B \<longrightarrow>
              exec_tokens_used (snd (process_sequential env cfg plan cs st)) < B + M)"
proof (induction cs arbitrary: st)
  case Nil
  from b have "0 \<le> M" by (simp add: llm_bounded_def)
  then show ?case by simp
next
  case (Cons c cs)
  show ?case
  proof (cases "budget_reached cfg st")
    case True
    then have "B \<le> exec_tokens_used st" by (simp add: budget_reached_def bud)
    moreover have "process_sequential env cfg plan (c # cs) st = (map budget_result (c # cs), st)"
      using True by (rule process_sequential_exhausted)
    ultimately show ?thesis
      by (intro exI [of _ 0]) simp
  next
    case False
    then have lt: "exec_tokens_used st < B" using nz by (simp add: budget_reached_def bud)
    obtain r st1 where pc: "process_chunk env cfg plan c st = (r, st1)"
      by (cases "process_chunk env cfg plan c st")
    from process_chunk_tokens [OF b pc] lt
    have t1: "exec_tokens_used st1 < B + M" by simp
    from Cons.IH [of st1] obtain k where k: "k \<le> length cs"
      and rs: "fst (process_sequential env cfg plan cs st1)
                 = fst (process_each env cfg plan (take k cs) st1) @ map budget_result (drop k cs)"
      and st': "snd (process_sequential env cfg plan cs st1) = snd (process_each env cfg plan (take k cs) st1)"
      and reached: "k < length cs \<longrightarrow> B \<le> exec_tokens_used (snd (process_sequential env cfg plan cs st1))"
      and bound: "exec_tokens_used st1 < B \<longrightarrow>
                    exec_tokens_used (snd (process_sequential env cfg plan cs st1)) < B + M"
      by blast
    have final: "exec_tokens_used (snd (process_sequential env cfg plan cs st1)) < B + M"
    proof (cases "exec_tokens_used st1 < B")
      case True
      with bound show ?thesis by simp
    next
      case False
      then have "budget_reached cfg st1" using nz by (simp add: budget_reached_def bud)
      from process_sequential_exhausted [OF this] t1 show ?thesis by simp
    qed
    have seq: "process_sequential env cfg plan (c # cs) st
                 = (r # fst (process_sequential env cfg plan cs st1),
                    snd (process_sequential env cfg plan cs st1))"
      using False pc by (simp add: case_prod_unfold Let_def)
    have each: "process_each env cfg plan (c # take k cs) st
                 = (r # fst (process_each env cfg plan (take k cs) st1),
                    snd (process_each env cfg plan (take k cs) st1))"
      using pc by (simp add: case_prod_unfold Let_def)
    show ?thesis
      using k rs st' reached final
      by (intro exI [of _ "Suc k"])
         (simp add: seq each del: process_sequential.simps process_each.simps)
  qed
qed

lemma process_chunk_budget:
  "process_chunk env (cfg\<lparr> max_tokens_budget := b \<rparr>) plan c st = process_chunk env cfg plan c st"
proof -
  have e: "cache_enabled (cfg\<lparr> max_tokens_budget := b \<rparr>) = cache_enabled cfg" by simp
  show ?thesis unfolding process_chunk_def e by (rule refl)
qed

lemma process_each_budget:
  "process_each env (cfg\<lparr> max_tokens_budget := b \<rparr>) plan cs st = process_each env cfg plan cs st"
  by (induction cs arbitrary: st) (simp_all add: process_chunk_budget)

lemma process_parallel_ignores_budget:
  "process_parallel env (cfg\<lparr> max_tokens_budget := b \<rparr>) plan cs st = process_parallel env cfg plan cs st"
  by (simp add: process_parallel_def process_each_budget)

lemma process_each_never_filtered:
  "r \<in> set (fst (process_each env cfg plan cs st)) \<Longrightarrow> \<not> was_filtered r"
proof (induction cs arbitrary: st)
  case Nil
  then show ?case by simp
next
  case (Cons c cs)
  obtain r0 st1 where pc: "process_chunk env cfg plan c st = (r0, st1)"
    by (cases "process_chunk env cfg plan c st")
  have "\<not> was_filtered r0"
    using pc by (auto simp: process_chunk_def Let_def split: if_splits prod.splits sum.splits)
  with Cons pc show ?case by (auto simp: case_prod_unfold Let_def)
qed


lemma process_each_flags:
  "map was_filtered (fst (process_each env cfg plan cs st)) = replicate (length cs) False"
proof (induction cs arbitrary: st)
  case Nil
  then show ?case by simp
next
  case (Cons c cs)
  obtain r0 st1 where pc: "process_chunk env cfg plan c st = (r0, st1)"
    by (cases "process_chunk env cfg plan c st")
  have "r0 \<in> set (fst (process_each env cfg plan [c] st))"
    using pc by (simp add: Let_def)
  then have "\<not> was_filtered r0" by (rule process_each_never_filtered)
  with Cons [of st1] pc show ?case by (simp add: case_prod_unfold Let_def)
qed

text \<open>
  Claim C3 (as amended), for the sequential path. With a positive budget \<open>B\<close>, calls that
  cost between 0 and \<open>M\<close> tokens and fewer than \<open>B\<close> tokens used at the start, the
  executor dispatches a prefix of the chunk list exactly as it would without a budget, and
  marks every chunk after that prefix as filtered without dispatching it; if any chunk is
  so marked the budget has been reached; and the tokens used at the end stay below
  \<open>B + M\<close>, the budget plus the cost of one call.
\<close>

theorem process_sequential_budget:
  assumes "llm_bounded env M" and "max_tokens_budget cfg = Some B" and "0 < B"
    and "exec_tokens_used st < B"
  shows "\<exists>k \<le> length chunks.
           fst (process_sequential env cfg plan chunks st)
             = fst (process_each env cfg plan (take k chunks) st) @ map budget_result (drop k chunks) \<and>
           snd (process_sequential env cfg plan chunks st)
             = snd (process_each env cfg plan (take k chunks) st) \<and>
           map was_filtered (fst (process_sequential env cfg plan chunks st))
             = replicate k False @ replicate (length chunks - k) True \<and>
           (k < length chunks \<longrightarrow> B \<le> exec_tokens_used (snd (process_sequential env cfg plan chunks st))) \<and>
           exec_tokens_used (snd (process_sequential env cfg plan chunks st)) < B + M"
proof -
  from assms(3) have nz: "B \<noteq> 0" by simp
  from process_sequential_prefix [OF assms(1,2) nz, of chunks plan st]
  obtain k where k: "k \<le> length chunks"
    and rs: "fst (process_sequential env cfg plan chunks st)
               = fst (process_each env cfg plan (take k chunks) st) @ map budget_result (drop k chunks)"
    and st': "snd (process_sequential env cfg plan chunks st)
               = snd (process_each env cfg plan (take k chunks) st)"
    and reached: "k < length chunks \<longrightarrow>
               B \<le> exec_tokens_used (snd (process_sequential env cfg plan chunks st))"
    and bound: "exec_tokens_used st < B \<longrightarrow>
               exec_tokens_used (snd (process_sequential env cfg plan chunks st)) < B + M"
    by blast
  have "map was_filtered (fst (process_sequential env cfg plan chunks st))
          = replicate k False @ replicate (length chunks - k) True"
    unfolding rs using k
    by (simp add: process_each_flags budget_result_def comp_def map_replicate_const min_def)
  with k rs st' reached bound assms(4) show ?thesis by blast
qed

theorem process_sequential_budget_witness:
  "llm_bounded (counting_env 10) 10 \<and>
   map was_filtered (fst (process_sequential (counting_env 10)
        \<lparr> max_parallel = 1, cache_enabled = True, max_tokens_budget = Some 15 \<rparr>
        (simple_plan ''what?'' False)
        [text_chunk 0 ''alpha'', text_chunk 1 ''beta'', text_chunk 2 ''gamma''] fresh_state))
     = [False, False, True] \<and>
   exec_tokens_used (snd (process_sequential (counting_env 10)
        \<lparr> max_parallel = 1, cache_enabled = True, max_tokens_budget = Some 15 \<rparr>
        (simple_plan ''what?'' False)
        [text_chunk 0 ''alpha'', text_chunk 1 ''beta'', text_chunk 2 ''gamma''] fresh_state))
     < 15 + 10"
proof -
  let ?cfg = "\<lparr> max_parallel = 1, cache_enabled = True, max_tokens_budget = Some 15 \<rparr>"
  let ?cs = "[text_chunk 0 ''alpha'', text_chunk 1 ''beta'', text_chunk 2 ''gamma'']"
  let ?run = "process_sequential (counting_env 10) ?cfg (simple_plan ''what?'' False) ?cs fresh_state"
  have b: "llm_bounded (counting_env 10) 10"
    by (simp add: llm_bounded_def counting_env_def)
  have bud: "max_tokens_budget ?cfg = Some 15" by simp
  have start: "exec_tokens_used fresh_state < 15" by (simp add: fresh_state_def)
  from process_sequential_budget [OF b bud _ start, of ?cs "simple_plan ''what?'' False"]
  have lt: "exec_tokens_used (snd ?run) < 15 + 10" by auto
  have flags: "map was_filtered (fst ?run) = [False, False, True]" by code_simp
  from b lt flags show ?thesis by simp
qed

text \<open>
  The claim as stated fails in the sequential path: with a budget of 15 tokens and two
  chunks that cost 10 tokens each, the budget is below the cost of all chunks (20), yet
  both chunks are dispatched, because 10 tokens used is still below the budget when the
  second chunk is reached.
\<close>

theorem process_sequential_budget_counterexample:
  "map was_filtered (fst (process_sequential (counting_env 10)
        \<lparr> max_parallel = 1, cache_enabled = True, max_tokens_budget = Some 15 \<rparr>
        (simple_plan ''what?'' False)
        [text_chunk 0 ''alpha'', text_chunk 1 ''beta''] fresh_state))
     = [False, False] \<and>
   exec_tokens_used (snd (process_sequential (counting_env 10)
        \<lparr> max_parallel = 1, cache_enabled = True, max_tokens_budget = Some 15 \<rparr>
        (simple_plan ''what?'' False)
        [text_chunk 0 ''alpha'', text_chunk 1 ''beta''] fresh_state)) = 20 \<and>
   exec_tokens_used (snd (process_each (counting_env 10)
        \<lparr> max_parallel = 1, cache_enabled = True, max_tokens_budget = None \<rparr>
        (simple_plan ''what?'' False)
        [text_chunk 0 ''alpha'', text_chunk 1 ''beta''] fresh_state)) = 20"
  by code_simp

text \<open>
  The parallel path never reads the budget: with a budget of 10 tokens and three chunks of
  10 tokens each it dispatches all three and uses 30 tokens, where the sequential path
  stops after the first.
\<close>

lemma process_parallel_overruns_budget:
  "map was_filtered (fst (process_parallel (counting_env 10)
        \<lparr> max_parallel = 4, cache_enabled = True, max_tokens_budget = Some 10 \<rparr>
        (simple_plan ''what?'' True)
        [text_chunk 0 ''alpha'', text_chunk 1 ''beta'', text_chunk 2 ''gamma''] fresh_state))
     = [False, False, False] \<and>
   exec_tokens_used (snd (process_parallel (counting_env 10)
        \<lparr> max_parallel = 4, cache_enabled = True, max_tokens_budget = Some 10 \<rparr>
        (simple_plan ''what?'' True)
        [text_chunk 0 ''alpha'', text_chunk 1 ''beta'', text_chunk 2 ''gamma''] fresh_state)) = 30 \<and>
   map was_filtered (fst (process_sequential (counting_env 10)
        \<lparr> max_parallel = 4, cache_enabled = True, max_tokens_budget = Some 10 \<rparr>
        (simple_plan ''what?'' True)
        [text_chunk 0 ''alpha'', text_chunk 1 ''beta'', text_chunk 2 ''gamma''] fresh_state))
     = [False, True, True]"
  by code_simp

lemma execute_sequential_shape:
  assumes "\<not> (parallel_ok plan \<and> max_parallel cfg > 1)"
  shows "\<exists>cs st2. exec_tokens_used st2 = 0 \<and>
           chunk_results (fst (execute env cfg chunks plan st))
             = fst (process_sequential env cfg plan cs st2) \<and>
           er_total_tokens (fst (execute env cfg chunks plan st))
             = exec_tokens_used (snd (process_sequential env cfg plan cs st2))"
proof -
  let ?st = "st\<lparr> exec_tokens_used := 0 \<rparr>"
  let ?filtered = "filter_chunks chunks (filter_criteria plan)"
  let ?st1 = "trace_add env INFO
                  (''Filtered '' @ str_int (int (length chunks) - int (length ?filtered)) @ '' chunks, ''
                     @ str_int (int (length ?filtered)) @ '' remaining'') None None None ?st"
  let ?limited = "truthy_int (chunk_limit plan) \<and> int (length ?filtered) > the (chunk_limit plan)"
  let ?cs = "if ?limited then py_slice ?filtered 0 (the (chunk_limit plan)) else ?filtered"
  let ?st2 = "if ?limited
                 then trace_add env WARNING
                        (''Limiting to '' @ str_int (the (chunk_limit plan)) @ '' chunks'')
                        None None None ?st1
                 else ?st1"
  have t: "exec_tokens_used ?st2 = 0" by simp
  from assms have np: "(parallel_ok plan \<and> max_parallel cfg > 1) = False" by simp
  have "chunk_results (fst (execute env cfg chunks plan st))
          = fst (process_sequential env cfg plan ?cs ?st2) \<and>
        er_total_tokens (fst (execute env cfg chunks plan st))
          = exec_tokens_used (snd (process_sequential env cfg plan ?cs ?st2))"
    unfolding execute_def Let_def case_prod_unfold np by simp
  with t show ?thesis by blast
qed

text \<open>
  The same at the entry point: \<open>execute\<close> resets the token count, so on its sequential
  path a positive budget bounds the tokens it reports, and the results are a dispatched
  prefix followed by filtered chunks.
\<close>

lemma execute_sequential_budget:
  assumes "llm_bounded env M" and "max_tokens_budget cfg = Some B" and "0 < B"
    and "\<not> (parallel_ok plan \<and> max_parallel cfg > 1)"
  shows "er_total_tokens (fst (execute env cfg chunks plan st)) < B + M \<and>
         (\<exists>k n. map was_filtered (chunk_results (fst (execute env cfg chunks plan st)))
                  = replicate k False @ replicate n True)"
proof -
  from execute_sequential_shape [OF assms(4), of env chunks st]
  obtain cs st2 where z: "exec_tokens_used st2 = 0"
    and r: "chunk_results (fst (execute env cfg chunks plan st))
              = fst (process_sequential env cfg plan cs st2)"
    and t: "er_total_tokens (fst (execute env cfg chunks plan st))
              = exec_tokens_used (snd (process_sequential env cfg plan cs st2))"
    by blast
  from z assms(3) have lt: "exec_tokens_used st2 < B" by simp
  from process_sequential_prefix [OF assms(1,2), of cs plan st2] assms(3) lt
  obtain k where k: "k \<le> length cs"
    and rs: "fst (process_sequential env cfg plan cs st2)
               = fst (process_each env cfg plan (take k cs) st2) @ map budget_result (drop k cs)"
    and bound: "exec_tokens_used (snd (process_sequential env cfg plan cs st2)) < B + M"
    by auto
  have "map was_filtered (fst (process_sequential env cfg plan cs st2))
          = replicate k False @ replicate (length cs - k) True"
    unfolding rs using k
    by (simp add: process_each_flags budget_result_def comp_def map_replicate_const min_def)
  with bound r t show ?thesis by auto
qed

section \<open>Hierarchical aggregation\<close>

lemma length_batches_le: "length (batches k xs) \<le> length xs"
proof (induction k xs rule: batches.induct)
  case (1 k xs)
  show ?case
  proof (cases "k = 0 \<or> xs = []")
    case True
    then show ?thesis by (subst batches.simps) simp
  next
    case False
    with 1 have "length (batches k (drop k xs)) \<le> length xs - k" by simp
    with False show ?thesis by (subst batches.simps) (cases xs, auto)
  qed
qed

lemma length_batches_less:
  assumes "2 \<le> k" and "k < length xs"
  shows "length (batches k xs) < length xs"
proof -
  have "batches k xs = take k xs # batches k (drop k xs)"
    using assms by (subst batches.simps) auto
  moreover have "length (batches k (drop k xs)) \<le> length xs - k"
    using length_batches_le [of k "drop k xs"] by simp
  ultimately show ?thesis using assms by simp
qed

lemma length_combine_batches: "length (fst (combine_batches env q bs st)) = length bs"
proof (induction bs arbitrary: st)
  case Nil
  then show ?case by simp
next
  case (Cons b bs)
  obtain out l' where llm: "llm_complete env (llm_state st) (combine_prompt q b) = (out, l')"
    by (cases "llm_complete env (llm_state st) (combine_prompt q b)")
  obtain rest t st' where rec: "combine_batches env q bs (st\<lparr> llm_state := l' \<rparr>) = (rest, t, st')"
    using prod_cases3 by blast
  from Cons.IH [of "st\<lparr> llm_state := l' \<rparr>"] rec have "length rest = length bs" by simp
  then show ?case using llm rec by (cases out) (auto split: prod.splits)
qed

lemma length_reduce_step:
  assumes "2 \<le> k"
  shows "length (fst (reduce_step env q k (summaries, levels, tokens, st)))
           = length (batches (nat k) summaries)"
proof -
  obtain new t st' where cb: "combine_batches env q (batches (nat k) summaries) st = (new, t, st')"
    using prod_cases3 by blast
  from length_combine_batches [of env q "batches (nat k) summaries" st] cb
  have "length new = length (batches (nat k) summaries)" by simp
  with cb assms show ?thesis by (simp add: reduce_step_def)
qed

lemma reduce_loop_returns:
  assumes "2 \<le> k"
  shows "\<exists>s'. reduce_loop env q k s = Some s'"
proof (induction "length (fst s)" arbitrary: s rule: less_induct)
  case less
  show ?case
  proof (cases "int (length (fst s)) > k")
    case False
    then have "reduce_loop env q k s = Some s"
      by (subst reduce_loop.simps) (simp only: if_False)
    then show ?thesis by blast
  next
    case True
    obtain summaries levels tokens st where s: "s = (summaries, levels, tokens, st)"
      using prod_cases4 by blast
    from True have big: "nat k < length summaries" using assms by (simp add: s)
    from assms have k2: "2 \<le> nat k" by simp
    have "length (fst (reduce_step env q k s)) = length (batches (nat k) summaries)"
      unfolding s by (rule length_reduce_step [OF assms])
    also have "\<dots> < length summaries"
      by (rule length_batches_less [OF k2 big])
    finally have "length (fst (reduce_step env q k s)) < length (fst s)" by (simp add: s)
    from less [OF this] obtain s' where "reduce_loop env q k (reduce_step env q k s) = Some s'"
      by blast
    with True have "reduce_loop env q k s = Some s'"
      by (subst reduce_loop.simps) (simp only: if_True)
    then show ?thesis by blast
  qed
qed

lemma hierarchical_aggregate_returns:
  assumes "2 \<le> max_results_per_level agg"
  shows "\<exists>r st'. hierarchical_aggregate agg env results plan st = Some (Inr (r, st'))"
proof (cases "has_llm agg")
  case False
  then show ?thesis by (simp add: hierarchical_aggregate_def)
next
  case True
  obtain level1 tokens st2 where sg:
    "summarize_groups env (plan_query plan) (batches (nat (max_results_per_level agg)) results) 1
       (trace_add env INFO
          (hierarchical_message (length results)
             (length (batches (nat (max_results_per_level agg)) results))) None None None st)
     = (level1, tokens, st2)"
    using prod_cases3 by blast
  from reduce_loop_returns [OF assms, of env "plan_query plan" "(level1, 1, tokens, st2)"]
  obtain s' where rl: "reduce_loop env (plan_query plan) (max_results_per_level agg)
                         (level1, 1, tokens, st2) = Some s'"
    by blast
  obtain fc lv tk st3 where fa: "final_aggregation env plan s' = (fc, lv, tk, st3)"
    using prod_cases4 by blast
  from True assms sg rl fa show ?thesis
    by (simp add: hierarchical_aggregate_def Let_def)
qed

text \<open>
  Claim C4 fails at the first level (and at the intermediate ones): a failed group
  summary is replaced by the text \<open>Group i summary failed: ...\<close> and the group's chunk
  results are dropped. With a completion service that always fails, one chunk result gives
  an answer that is only that text; three chunk results at level size 2 give the final
  fallback, which concatenates the two failure texts. Neither contains the content of a
  chunk result. The call does return (lemma above), and only the final level falls back
  to the concatenation of its inputs.
\<close>

theorem hierarchical_failure_drops_content:
  "map_option (map_sum id (\<lambda>(r, st). agg_content r))
     (hierarchical_aggregate
        \<lparr> has_llm = True, max_direct_aggregate_chars = 50000, max_results_per_level = 10 \<rparr>
        (failing_env ''boom'') [ok_result 0 ''pricing is too high'']
        (simple_plan ''pricing?'' True) fresh_state)
     = Some (Inr ''Group 1 summary failed: boom'') \<and>
   map_option (map_sum id (\<lambda>(r, st). agg_content r))
     (hierarchical_aggregate
        \<lparr> has_llm = True, max_direct_aggregate_chars = 50000, max_results_per_level = 2 \<rparr>
        (failing_env ''boom'')
        [ok_result 0 ''pricing is too high'', ok_result 1 ''cheap'', ok_result 2 ''fair'']
        (simple_plan ''pricing?'' True) fresh_state)
     = Some (Inr (''Final aggregation failed: boom\<newline>\<newline>Group 1 summary failed: boom''
                   @ ''\<newline>\<newline>---\<newline>\<newline>Group 2 summary failed: boom'')) \<and>
   \<not> contains ''Group 1 summary failed: boom'' ''pricing is too high'' \<and>
   \<not> contains (''Final aggregation failed: boom\<newline>\<newline>Group 1 summary failed: boom''
                   @ ''\<newline>\<newline>---\<newline>\<newline>Group 2 summary failed: boom'') ''pricing is too high''"
  by code_simp

section \<open>The query boundary\<close>

lemma bind_phase_raises:
  "m s = (Inl e, s') \<Longrightarrow> bind_phase m f s = (Inl e, s')"
  by (simp add: bind_phase_def)

lemma bind_phase_returns:
  "m s = (Inr a, s') \<Longrightarrow> bind_phase m f s = f a s'"
  by (simp add: bind_phase_def)


lemma trace_exit_error [simp]: "error (trace_exit ex tr) = error tr"
  by (simp add: trace_exit_def add_entry_def Let_def)


lemma log_error_error [simp]: "error (log_error now e d tr) = Some e"
  by (simp add: log_error_def add_entry_def Let_def)







lemma query_guarded_success:
  assumes "query_body cmp ex q (trace_enter ex q, w) = (Inr res, tr, w1)"
  shows "query_guarded cmp ex q w = (res\<lparr> qr_trace := Some (trace_exit ex tr) \<rparr>, w1)"
  using assms by (simp add: query_guarded_def)

lemma bind_phase_InrE:
  assumes "bind_phase m f s = (Inr b, s')"
  obtains a s1 where "m s = (Inr a, s1)" and "f a s1 = (Inr b, s')"
  using assms by (auto simp: bind_phase_def split: prod.splits sum.splits)

lemma answer_phase_success:
  assumes "answer_phase cmp plan er s = (Inr (a, er'), s')"
  shows "er_success er' = er_success er"
proof (cases "aggregated_content er \<noteq> []")
  case True
  with assms show ?thesis by (simp add: answer_phase_def return_phase_def)
next
  case False
  with assms have "bind_phase (aggregator_aggregate cmp (chunk_results er) plan) (\<lambda>agg.
          return_phase (agg_content agg,
            er\<lparr> er_total_tokens := er_total_tokens er + agg_tokens_used agg \<rparr>)) s
        = (Inr (a, er'), s')"
    by (simp add: answer_phase_def)
  then show ?thesis
    by (elim bind_phase_InrE) (auto simp: return_phase_def)
qed

text \<open>
  When no step raises, the result's \<open>success\<close> flag is the one the executor returned and
  its \<open>error\<close> field is empty, also when the executor reports a failure of its own.
\<close>

lemma query_body_result:
  assumes "query_body cmp ex q s = (Inr res, s')"
  shows "qr_error res = None \<and> qr_query res = q \<and>
         (\<exists>chunks plan s1 er s2. executor_execute cmp chunks plan s1 = (Inr er, s2) \<and>
            qr_success res = er_success er)"
proof -
  from assms show ?thesis
    unfolding query_body_def case_prod_beta
  proof (elim bind_phase_InrE)
    fix u1 s1 plan s2 u2 s3 chunks s4 u3 s5 er s6 p s7 rv s8 ans s9 u4 s10
    assume ex: "executor_execute cmp chunks plan s5 = (Inr er, s6)"
      and ap: "answer_phase cmp plan er s6 = (Inr p, s7)"
      and ret: "return_phase
           \<lparr> qr_answer = ans, qr_success = er_success (snd p), qr_query = q,
             qr_file_path = ex_file_path ex,
             qr_chunks_processed = er_chunks_processed (snd p),
             qr_chunks_filtered = er_chunks_filtered (snd p),
             qr_total_tokens = er_total_tokens (snd p),
             qr_duration_ms = ex_duration_ms ex, qr_trace = None,
             citation_report = fst rv, verification = snd rv, qr_error = None \<rparr> s10
           = (Inr res, s')"
    from ap have "er_success (snd p) = er_success er"
      using answer_phase_success [of cmp plan er s6 "fst p" "snd p" s7] by simp
    with ret have "qr_error res = None" and "qr_query res = q"
      and "qr_success res = er_success er"
      by (auto simp: return_phase_def)
    with ex show ?thesis by blast
  qed
qed

end
